theory Spec2Isabelle
  imports Main
begin

text \<open>
  The server's preview.ts (src/unnamed/part_001: \<^verbatim>\<open>isPrivateIP\<close>, \<^verbatim>\<open>validateUrl\<close>,
  \<^verbatim>\<open>extractMetadata\<close>, \<^verbatim>\<open>previewHandler\<close>) and utils.ts (src/unnamed/part_000:
  \<^verbatim>\<open>isPrivateIp\<close>, \<^verbatim>\<open>normalizeUrl\<close>, \<^verbatim>\<open>extractMeta\<close>), and the app's normalizeUrl.ts
  (src/unnamed/part_005).
\<close>

section \<open>JavaScript values used by the server\<close>

text \<open>
  Strings are lists of code units (\<^typ>\<open>string\<close>); a response body is kept as the list of
  its bytes, so the UTF-8 decoding of \<^verbatim>\<open>Buffer.concat(chunks).toString('utf-8')\<close> is the
  identity of the model. An optional value (\<^verbatim>\<open>undefined\<close>, \<^verbatim>\<open>null\<close>) is \<^const>\<open>None\<close>.
\<close>

text \<open>Truthiness of an optional string: \<^verbatim>\<open>undefined\<close>, \<^verbatim>\<open>null\<close> and \<^verbatim>\<open>''\<close> are falsy.\<close>

fun truthy :: "string option \<Rightarrow> bool" where
  "truthy None = False"
| "truthy (Some s) = (s \<noteq> [])"

text \<open>\<^verbatim>\<open>s.startsWith(p)\<close>\<close>

definition startsWith :: "string \<Rightarrow> string \<Rightarrow> bool" where
  "startsWith s p = (take (length p) s = p)"

text \<open>\<^verbatim>\<open>s.endsWith(p)\<close>\<close>

definition endsWith :: "string \<Rightarrow> string \<Rightarrow> bool" where
  "endsWith s p = (length p \<le> length s \<and> drop (length s - length p) s = p)"

text \<open>\<^verbatim>\<open>s.includes(p)\<close>: \<open>p\<close> occurs in \<open>s\<close> as a contiguous substring.\<close>

fun str_includes :: "string \<Rightarrow> string \<Rightarrow> bool" where
  "str_includes [] p = (p = [])"
| "str_includes (c # s) p = (startsWith (c # s) p \<or> str_includes s p)"

text \<open>\<^verbatim>\<open>s.split(sep)\<close> for a separator of one code unit; \<^verbatim>\<open>''.split('.')\<close> is \<^verbatim>\<open>['']\<close>.\<close>

fun splitOn :: "char \<Rightarrow> string \<Rightarrow> string list" where
  "splitOn sep [] = [[]]"
| "splitOn sep (c # cs) =
     (if c = sep then [] # splitOn sep cs
      else (case splitOn sep cs of
              [] \<Rightarrow> [[c]]
            | p # ps \<Rightarrow> (c # p) # ps))"

text \<open>
  An exception value: its \<^verbatim>\<open>name\<close> and its \<^verbatim>\<open>message\<close>. Everything the handler can
  catch (the \<^verbatim>\<open>Error\<close>s of \<^verbatim>\<open>validateUrl\<close>, the \<^verbatim>\<open>TypeError\<close> of \<^verbatim>\<open>new URL\<close> and of a
  failed \<^verbatim>\<open>fetch\<close>, the \<^verbatim>\<open>AbortError\<close> of an aborted one) is an instance of \<^verbatim>\<open>Error\<close>.
\<close>

datatype exn = Exn (exn_name: string) (exn_message: string)

section \<open>Reading the body under the size cap (preview.ts, lines 172-203)\<close>

text \<open>
  What \<^verbatim>\<open>reader.read()\<close> yields, in order: a chunk of bytes, or a rejection. The end of
  the list is \<^verbatim>\<open>{ done: true }\<close>.
\<close>

datatype read_event = Chunk string | ReadFails exn

definition MAX_SIZE :: nat where
  "MAX_SIZE = 512 * 1024"

text \<open>
  The three ways the inner loop ends: \<^verbatim>\<open>break\<close> on \<^verbatim>\<open>done\<close> with the chunks buffered so
  far, the 400 answer \<^verbatim>\<open>Content size exceeds 512KB limit\<close> after \<^verbatim>\<open>reader.cancel()\<close>, or
  the rethrown rejection of \<^verbatim>\<open>reader.read()\<close>.
\<close>

datatype body_result = BodyDone "string list" | TooLarge | BodyThrows exn

text \<open>
  \<^verbatim>\<open>
  let received = 0; const chunks = [];
  while (true) {
    const { done, value } = await reader.read();
    if (done) break;
    if (received + value.length > MAX_SIZE) { await reader.cancel(); res.status(400)...; return; }
    received += value.length;
    chunks.push(value);
  }
  \<close>
  The loop state is \<open>received\<close> and \<open>chunks\<close>; the third argument is what the reader
  has not yielded yet.
\<close>

fun readBody :: "nat \<Rightarrow> string list \<Rightarrow> read_event list \<Rightarrow> body_result" where
  "readBody received chunks [] = BodyDone chunks"
| "readBody received chunks (ReadFails e # rest) = BodyThrows e"
| "readBody received chunks (Chunk v # rest) =
     (if received + length v > MAX_SIZE then TooLarge
      else readBody (received + length v) (chunks @ [v]) rest)"

text \<open>The bytes a list of buffered chunks holds.\<close>

definition bytesOf :: "string list \<Rightarrow> nat" where
  "bytesOf chunks = length (concat chunks)"

text \<open>The chunks of a stream prefix that holds no rejection.\<close>

fun chunksOf :: "read_event list \<Rightarrow> string list" where
  "chunksOf [] = []"
| "chunksOf (Chunk v # rest) = v # chunksOf rest"
| "chunksOf (ReadFails e # rest) = chunksOf rest"

fun isChunk :: "read_event \<Rightarrow> bool" where
  "isChunk (Chunk v) = True"
| "isChunk (ReadFails e) = False"

section \<open>Node's \<^verbatim>\<open>net.isIP\<close> and \<^verbatim>\<open>Number\<close>\<close>

definition isDigit :: "char \<Rightarrow> bool" where
  "isDigit c = (c \<in> set ''0123456789'')"

definition digitVal :: "char \<Rightarrow> nat" where
  "digitVal c = of_char c - 48"

text \<open>The number a string of decimal digits denotes.\<close>

definition decimal :: "string \<Rightarrow> nat" where
  "decimal s = foldl (\<lambda>n c. 10 * n + digitVal c) 0 s"

text \<open>
  A JavaScript number as the classifiers use it: \<^verbatim>\<open>NaN\<close> or an integer.
  \<^verbatim>\<open>Number(s)\<close> is modelled on the non-empty strings of ASCII digits, where it is the
  decimal value; every other string reads as \<^verbatim>\<open>NaN\<close> here. The classifiers apply it
  to the pieces of \<^verbatim>\<open>ip.split('.')\<close> of a string that \<^verbatim>\<open>isIP\<close> accepted: for an
  IPv4 literal each piece is a string of digits, and for an IPv6 literal the first piece
  holds a colon, for which \<^verbatim>\<open>Number\<close> is \<^verbatim>\<open>NaN\<close> indeed.
\<close>

datatype jsnum = NaN | Num int

definition Number :: "string \<Rightarrow> jsnum" where
  "Number s = (if s \<noteq> [] \<and> list_all isDigit s then Num (int (decimal s)) else NaN)"

text \<open>\<^verbatim>\<open>Number.isNaN(p)\<close>, and the comparisons of a number with an integer literal
  (every comparison with \<^verbatim>\<open>NaN\<close> is false).\<close>

fun isNaN :: "jsnum \<Rightarrow> bool" where
  "isNaN NaN = True"
| "isNaN (Num n) = False"

fun jsLt :: "jsnum \<Rightarrow> int \<Rightarrow> bool" where
  "jsLt NaN k = False"
| "jsLt (Num n) k = (n < k)"

fun jsGt :: "jsnum \<Rightarrow> int \<Rightarrow> bool" where
  "jsGt NaN k = False"
| "jsGt (Num n) k = (n > k)"

fun jsLe :: "jsnum \<Rightarrow> int \<Rightarrow> bool" where
  "jsLe NaN k = False"
| "jsLe (Num n) k = (n \<le> k)"

fun jsGe :: "jsnum \<Rightarrow> int \<Rightarrow> bool" where
  "jsGe NaN k = False"
| "jsGe (Num n) k = (n \<ge> k)"

text \<open>
  \<^verbatim>\<open>net.isIPv4\<close>: dot-decimal notation with no leading zeroes, four segments of
  \<^verbatim>\<open>25[0-5]|2[0-4]\d|1\d\d|[1-9]?\d\<close>.
\<close>

definition v4Seg :: "string \<Rightarrow> bool" where
  "v4Seg s = (s \<noteq> [] \<and> list_all isDigit s \<and> length s \<le> 3 \<and>
     (length s = 1 \<or> take 1 s \<noteq> ''0'') \<and> decimal s \<le> 255)"

definition isIPv4 :: "string \<Rightarrow> bool" where
  "isIPv4 s = (let segs = splitOn CHR ''.'' s in length segs = 4 \<and> list_all v4Seg segs)"

text \<open>
  \<^verbatim>\<open>net.isIP(s)\<close> is 4, 6 or 0. Which strings are IPv6 literals is Node's business: the
  recogniser \<open>v6\<close> is a parameter.
\<close>

definition isIP :: "(string \<Rightarrow> bool) \<Rightarrow> string \<Rightarrow> nat" where
  "isIP v6 s = (if isIPv4 s then 4 else if v6 s then 6 else 0)"

text \<open>\<^verbatim>\<open>s.toLowerCase()\<close>, on the ASCII letters (host names and IP literals are ASCII).\<close>

definition lowerChar :: "char \<Rightarrow> char" where
  "lowerChar c = (if 65 \<le> (of_char c :: nat) \<and> (of_char c :: nat) \<le> 90
                  then char_of (of_char c + 32 :: nat) else c)"

definition toLowerCase :: "string \<Rightarrow> string" where
  "toLowerCase s = map lowerChar s"

section \<open>The classifier of utils.ts: \<^verbatim>\<open>isPrivateIp\<close>\<close>

text \<open>
  \<^verbatim>\<open>
  function isPrivateIPv4(ip) {
    const parts = ip.split('.').map(Number);
    if (parts.length !== 4 || parts.some((p) => Number.isNaN(p) || p < 0 || p > 255)) return true;
    const [a, b] = parts;
    if (a === 127) return true;
    if (a === 10) return true;
    if (a === 172 && b >= 16 && b <= 31) return true;
    if (a === 192 && b === 168) return true;
    if (a === 169 && b === 254) return true;
    if (a === 0) return true;
    if (a >= 224 && a <= 239) return true;
    if (a >= 240) return true;
    return false;
  }
  \<close>
\<close>

definition badPart :: "jsnum \<Rightarrow> bool" where
  "badPart p = (isNaN p \<or> jsLt p 0 \<or> jsGt p 255)"

definition isPrivateIPv4 :: "string \<Rightarrow> bool" where
  "isPrivateIPv4 ip =
     (let parts = map Number (splitOn CHR ''.'' ip) in
      if length parts \<noteq> 4 \<or> list_ex badPart parts then True
      else (case parts of
              a # b # rest \<Rightarrow>
                if a = Num 127 then True
                else if a = Num 10 then True
                else if a = Num 172 \<and> jsGe b 16 \<and> jsLe b 31 then True
                else if a = Num 192 \<and> b = Num 168 then True
                else if a = Num 169 \<and> b = Num 254 then True
                else if a = Num 0 then True
                else if jsGe a 224 \<and> jsLe a 239 then True
                else if jsGe a 240 then True
                else False
            | _ \<Rightarrow> True))"

text \<open>The regular expressions of \<^verbatim>\<open>isPrivateIPv6\<close>, all anchored at the start and
  case-insensitive. \<open>hexColon\<close> is \<^verbatim>\<open>[0-9a-f]*:\<close>.\<close>

definition isHex :: "char \<Rightarrow> bool" where
  "isHex c = (c \<in> set ''0123456789abcdefABCDEF'')"

fun hexColon :: "string \<Rightarrow> bool" where
  "hexColon [] = False"
| "hexColon (c # cs) = (c = CHR '':'' \<or> (isHex c \<and> hexColon cs))"

text \<open>\<^verbatim>\<open>/^f[c-d][0-9a-f]*:/i\<close>\<close>

fun reUniqueLocal :: "string \<Rightarrow> bool" where
  "reUniqueLocal (f # c # cs) =
     (lowerChar f = CHR ''f'' \<and> lowerChar c \<in> set ''cd'' \<and> hexColon cs)"
| "reUniqueLocal _ = False"

text \<open>\<^verbatim>\<open>/^fe[89ab][0-9a-f]*:/i\<close>\<close>

fun reLinkLocal :: "string \<Rightarrow> bool" where
  "reLinkLocal (f # e # c # cs) =
     (lowerChar f = CHR ''f'' \<and> lowerChar e = CHR ''e'' \<and> lowerChar c \<in> set ''89ab'' \<and>
      hexColon cs)"
| "reLinkLocal _ = False"

text \<open>\<^verbatim>\<open>/^fe[c-f][0-9a-f]*:/i\<close>\<close>

fun reSiteLocal :: "string \<Rightarrow> bool" where
  "reSiteLocal (f # e # c # cs) =
     (lowerChar f = CHR ''f'' \<and> lowerChar e = CHR ''e'' \<and> lowerChar c \<in> set ''cdef'' \<and>
      hexColon cs)"
| "reSiteLocal _ = False"

text \<open>\<^verbatim>\<open>/^ff[0-9a-f]*:/i\<close>\<close>

fun reMulticast :: "string \<Rightarrow> bool" where
  "reMulticast (f # g # cs) =
     (lowerChar f = CHR ''f'' \<and> lowerChar g = CHR ''f'' \<and> hexColon cs)"
| "reMulticast _ = False"

text \<open>\<^verbatim>\<open>/^2001:db8:/i\<close>\<close>

definition reDocumentation :: "string \<Rightarrow> bool" where
  "reDocumentation addr = startsWith (toLowerCase addr) ''2001:db8:''"

text \<open>\<^verbatim>\<open>addr.slice(addr.lastIndexOf(':') + 1)\<close>: what follows the last colon (the whole
  string when it has none).\<close>

definition afterLastColon :: "string \<Rightarrow> string" where
  "afterLastColon addr = rev (takeWhile (\<lambda>c. c \<noteq> CHR '':'') (rev addr))"

text \<open>
  \<^verbatim>\<open>
  function isPrivateIPv6(ip) {
    const v = ip.toLowerCase();
    const zoneIdx = v.indexOf('%');
    const addr = zoneIdx >= 0 ? v.slice(0, zoneIdx) : v;
    if (addr === '::1' || addr === '::') return true;
    if (addr.startsWith('::ffff:')) {
      const v4 = addr.slice(addr.lastIndexOf(':') + 1);
      if (isIP(v4) === 4) return isPrivateIPv4(v4);
    }
    if (/^f[c-d][0-9a-f]*:/i.test(addr)) return true;
    ...
    return false;
  }
  \<close>
\<close>

definition isPrivateIPv6 :: "(string \<Rightarrow> bool) \<Rightarrow> string \<Rightarrow> bool" where
  "isPrivateIPv6 v6 ip =
     (let v = toLowerCase ip;
          addr = takeWhile (\<lambda>c. c \<noteq> CHR ''%'') v in
      if addr = ''::1'' \<or> addr = ''::'' then True
      else if startsWith addr ''::ffff:'' \<and> isIP v6 (afterLastColon addr) = 4
        then isPrivateIPv4 (afterLastColon addr)
      else if reUniqueLocal addr then True
      else if reLinkLocal addr then True
      else if reSiteLocal addr then True
      else if reMulticast addr then True
      else if reDocumentation addr then True
      else False)"

text \<open>
  \<^verbatim>\<open>dnsLookup(literal, { all: true })\<close>: the addresses of the records found, or a
  rejection (\<^const>\<open>None\<close>), which the \<^verbatim>\<open>catch\<close> of \<^verbatim>\<open>isPrivateIp\<close> turns into \<^verbatim>\<open>true\<close>.
\<close>

type_synonym resolver = "string \<Rightarrow> string list option"

text \<open>The test the loop of \<^verbatim>\<open>isPrivateIp\<close> makes on one resolved address.\<close>

definition privateAddress :: "(string \<Rightarrow> bool) \<Rightarrow> string \<Rightarrow> bool" where
  "privateAddress v6 address =
     ((isIP v6 address = 4 \<and> isPrivateIPv4 address) \<or>
      (isIP v6 address = 6 \<and> isPrivateIPv6 v6 address))"

text \<open>
  \<^verbatim>\<open>
  export async function isPrivateIp(hostname) {
    try {
      if (!hostname) return true;
      const literal = hostname.startsWith('[') && hostname.endsWith(']')
        ? hostname.slice(1, -1) : hostname;
      if (literal.toLowerCase() === 'localhost') return true;
      const ipType = isIP(literal);
      if (ipType === 4) return isPrivateIPv4(literal);
      if (ipType === 6) return isPrivateIPv6(literal);
      const results = await dnsLookup(literal, { all: true });
      if (!results || results.length === 0) return true;
      for (const r of results) {
        const t = isIP(r.address);
        if (t === 4 && isPrivateIPv4(r.address)) return true;
        if (t === 6 && isPrivateIPv6(r.address)) return true;
      }
      return false;
    } catch { return true; }
  }
  \<close>
\<close>

text \<open>The \<open>literal\<close> of \<^verbatim>\<open>isPrivateIp\<close>: the host name without its IPv6 brackets
  (\<^verbatim>\<open>hostname.slice(1, -1)\<close>).\<close>

definition stripBrackets :: "string \<Rightarrow> string" where
  "stripBrackets hostname =
     (if startsWith hostname ''['' \<and> endsWith hostname '']''
      then butlast (tl hostname) else hostname)"

definition isPrivateIp :: "(string \<Rightarrow> bool) \<Rightarrow> resolver \<Rightarrow> string \<Rightarrow> bool" where
  "isPrivateIp v6 dnsLookup hostname =
     (if hostname = [] then True
      else let literal = stripBrackets hostname in
        if toLowerCase literal = ''localhost'' then True
        else if isIP v6 literal = 4 then isPrivateIPv4 literal
        else if isIP v6 literal = 6 then isPrivateIPv6 v6 literal
        else (case dnsLookup literal of
                None \<Rightarrow> True
              | Some results \<Rightarrow>
                  if results = [] then True
                  else list_ex (privateAddress v6) results))"

section \<open>The validator of preview.ts: \<^verbatim>\<open>isPrivateIP\<close> and \<^verbatim>\<open>validateUrl\<close>\<close>

text \<open>
  \<^verbatim>\<open>
  function isPrivateIP(ip) {
    if (!isIP(ip)) return false;
    const parts = ip.split('.').map(Number);
    if (parts.length === 4) {
      if (parts[0] === 127) return true;
      if (parts[0] === 10) return true;
      if (parts[0] === 172 && parts[1] >= 16 && parts[1] <= 31) return true;
      if (parts[0] === 192 && parts[1] === 168) return true;
      if (parts[0] === 169 && parts[1] === 254) return true;
    }
    if (ip === '::1' || ip.startsWith('fc') || ip.startsWith('fd')) return true;
    return false;
  }
  \<close>
\<close>

definition isPrivateIP :: "(string \<Rightarrow> bool) \<Rightarrow> string \<Rightarrow> bool" where
  "isPrivateIP v6 ip =
     (if isIP v6 ip = 0 then False
      else let parts = map Number (splitOn CHR ''.'' ip) in
        if (case parts of
              [p0, p1, p2, p3] \<Rightarrow>
                p0 = Num 127 \<or> p0 = Num 10 \<or>
                (p0 = Num 172 \<and> jsGe p1 16 \<and> jsLe p1 31) \<or>
                (p0 = Num 192 \<and> p1 = Num 168) \<or>
                (p0 = Num 169 \<and> p1 = Num 254)
            | _ \<Rightarrow> False)
        then True
        else if ip = ''::1'' \<or> startsWith ip ''fc'' \<or> startsWith ip ''fd'' then True
        else False)"

text \<open>
  A parsed URL, with the components of the WHATWG \<^verbatim>\<open>URL\<close> class the code reads or
  writes (\<^verbatim>\<open>protocol\<close> ends with its colon, \<^verbatim>\<open>hash\<close> starts with \<^verbatim>\<open>#\<close> unless empty).
  \<^verbatim>\<open>searchParams\<close> is the list of name-value pairs of the query, in order.
\<close>

record URL =
  protocol :: string
  username :: string
  password :: string
  hostname :: string
  port :: string
  pathname :: string
  searchParams :: "(string \<times> string) list"
  hash :: string

text \<open>The answer of a server: the status, the two headers the handler reads
  (\<^verbatim>\<open>headers.get\<close> gives \<^verbatim>\<open>null\<close> for a missing one) and the body's stream
  (\<^verbatim>\<open>response.body\<close> may be \<^verbatim>\<open>null\<close>). \<open>readTimes\<close> holds the milliseconds each
  \<^verbatim>\<open>reader.read()\<close> of the body takes to settle, in order; no statement of the handler
  looks at a clock while it reads.\<close>

record response =
  status :: nat
  location :: "string option"
  contentType :: "string option"
  body :: "read_event list option"
  readTimes :: "nat list"

text \<open>One element of a parsed page: its tag, its attributes and its text content.\<close>

record element =
  tag :: string
  attrs :: "(string \<times> string) list"
  inner :: string

text \<open>A page as cheerio holds it: its elements in document order, and \<^verbatim>\<open>$.text()\<close>.\<close>

record document =
  elements :: "element list"
  allText :: string

text \<open>The five price patterns of \<^verbatim>\<open>extractMetadata\<close>, in the order of \<^verbatim>\<open>pricePatterns\<close>.\<close>

datatype pricePattern = DollarSign | SuffixUSD | SuffixEUR | PoundSign | EuroSign

text \<open>
  What the server does not implement itself, as parameters:
  \<^item> \<open>isIPv6\<close>: \<^verbatim>\<open>net.isIPv6\<close>;
  \<^item> \<open>newURL\<close>: \<^verbatim>\<open>new URL(s)\<close>, the parsed URL or the \<^verbatim>\<open>TypeError\<close> thrown;
  \<^item> \<open>newURLBase\<close>: \<^verbatim>\<open>new URL(s, base)\<close>;
  \<^item> \<open>urlToString\<close>: \<^verbatim>\<open>url.toString()\<close>;
  \<^item> \<open>net\<close>: what \<^verbatim>\<open>fetch(url, { signal, redirect: 'manual' })\<close> does for the \<open>n\<close>-th
    request of one handler call (counted from 0) when nothing aborts it: the milliseconds
    until the promise settles, and the rejection or the response it settles with;
  \<^item> \<open>load\<close>: \<^verbatim>\<open>cheerio.load(html)\<close>;
  \<^item> \<open>reMatch\<close>: \<^verbatim>\<open>text.match(pattern)\<close> for the five price patterns: \<^verbatim>\<open>null\<close>, or
    the match \<^verbatim>\<open>match[0]\<close> and its group \<^verbatim>\<open>match[1]\<close>.
\<close>

record env =
  isIPv6 :: "string \<Rightarrow> bool"
  newURL :: "string \<Rightarrow> exn + URL"
  newURLBase :: "string \<Rightarrow> string \<Rightarrow> exn + URL"
  urlToString :: "URL \<Rightarrow> string"
  net :: "nat \<Rightarrow> string \<Rightarrow> nat \<times> (exn + response)"
  load :: "string \<Rightarrow> document"
  reMatch :: "pricePattern \<Rightarrow> string \<Rightarrow> (string \<times> string) option"

text \<open>
  \<^verbatim>\<open>
  function validateUrl(urlString) {
    const url = new URL(urlString);
    if (!['http:', 'https:'].includes(url.protocol)) throw new Error('Only HTTP and HTTPS protocols are allowed');
    if (isPrivateIP(url.hostname)) throw new Error('Private IP addresses are not allowed');
    return url;
  }
  \<close>
\<close>

definition validateUrl :: "env \<Rightarrow> string \<Rightarrow> exn + URL" where
  "validateUrl E urlString =
     (case newURL E urlString of
        Inl e \<Rightarrow> Inl e
      | Inr url \<Rightarrow>
          if protocol url \<notin> set [''http:'', ''https:'']
            then Inl (Exn ''Error'' ''Only HTTP and HTTPS protocols are allowed'')
          else if isPrivateIP (isIPv6 E) (hostname url)
            then Inl (Exn ''Error'' ''Private IP addresses are not allowed'')
          else Inr url)"

section \<open>The fetch loop of \<^verbatim>\<open>previewHandler\<close> (preview.ts, lines 129-216)\<close>

definition MAX_REDIRECTS :: nat where
  "MAX_REDIRECTS = 3"

text \<open>How one run of the \<^verbatim>\<open>try\<close> block ends: an answer sent with status 400 followed
  by \<^verbatim>\<open>return\<close>, an exception for the \<^verbatim>\<open>catch\<close>, or \<^verbatim>\<open>break\<close> with the page.\<close>

datatype attempt = Respond400 string | Thrown exn | Html string

text \<open>\<^verbatim>\<open>response.status >= 300 && response.status < 400 && response.headers.get('location')\<close>:
  the \<^verbatim>\<open>Location\<close> to follow, if the answer is a redirect.\<close>

definition redirectTarget :: "response \<Rightarrow> string option" where
  "redirectTarget r =
     (if 300 \<le> status r \<and> status r < 400 \<and> truthy (location r) then location r else None)"

text \<open>\<^verbatim>\<open>response.ok\<close>\<close>

definition ok :: "response \<Rightarrow> bool" where
  "ok r = (200 \<le> status r \<and> status r \<le> 299)"

text \<open>\<^verbatim>\<open>x || ''\<close> on an optional string\<close>

fun orEmpty :: "string option \<Rightarrow> string" where
  "orEmpty None = []"
| "orEmpty (Some s) = s"

text \<open>
  What follows the redirect test in one iteration (lines 161-203): the status and
  content-type checks and the body read.
\<close>

definition readPage :: "response \<Rightarrow> attempt" where
  "readPage r =
     (if \<not> ok r then Respond400 ''Failed to fetch URL''
      else if \<not> str_includes (orEmpty (contentType r)) ''text/html''
        then Respond400 ''URL must return HTML content''
      else (case body r of
              None \<Rightarrow> Respond400 ''Failed to fetch URL''
            | Some reader \<Rightarrow>
                (case readBody 0 [] reader of
                   TooLarge \<Rightarrow> Respond400 ''Content size exceeds 512KB limit''
                 | BodyThrows e \<Rightarrow> Thrown e
                 | BodyDone chunks \<Rightarrow> Html (concat chunks))))"

text \<open>
  \<^verbatim>\<open>
  let currentUrl = sourceUrl; let redirects = 0;
  while (true) {
    const controller = new AbortController();
    const timeout = setTimeout(() => controller.abort(), 5000);
    const response = await fetch(currentUrl, { signal: controller.signal, redirect: 'manual' });
    clearTimeout(timeout);
    if (response.status >= 300 && response.status < 400 && response.headers.get('location')) {
      if (redirects >= MAX_REDIRECTS) { res.status(400).json({ error: 'Failed to fetch URL' }); return; }
      redirects++;
      currentUrl = new URL(response.headers.get('location')!, currentUrl).toString();
      continue;
    }
    ... (readPage)
  }
  \<close>
  The loop state is \<open>currentUrl\<close> and \<open>redirects\<close>. Each iteration arms a timer of its
  own before the request and clears it once \<^verbatim>\<open>fetch\<close> has settled: a request that
  has not settled after 5000 ms is aborted, and \<^verbatim>\<open>fetch\<close> rejects with an
  \<^verbatim>\<open>AbortError\<close>. Beside the way the run ends, the function returns the requests it
  made, in order: each URL contacted with the milliseconds spent waiting for it.
\<close>

definition abortError :: exn where
  "abortError = Exn ''AbortError'' ''This operation was aborted''"

function fetchLoop :: "env \<Rightarrow> string \<Rightarrow> nat \<Rightarrow> (string \<times> nat) list \<times> attempt" where
  "fetchLoop E currentUrl redirects =
     (case net E redirects currentUrl of
        (latency, settled) \<Rightarrow>
          if 5000 \<le> latency then ([(currentUrl, 5000)], Thrown abortError)
          else (case settled of
                  Inl e \<Rightarrow> ([(currentUrl, latency)], Thrown e)
                | Inr r \<Rightarrow>
                    (case redirectTarget r of
                       Some loc \<Rightarrow>
                         if redirects \<ge> MAX_REDIRECTS
                           then ([(currentUrl, latency)], Respond400 ''Failed to fetch URL'')
                         else (case newURLBase E loc currentUrl of
                                 Inl e \<Rightarrow> ([(currentUrl, latency)], Thrown e)
                               | Inr u \<Rightarrow>
                                   (case fetchLoop E (urlToString E u) (redirects + 1) of
                                      (later, a) \<Rightarrow> ((currentUrl, latency) # later, a)))
                     | None \<Rightarrow> ([(currentUrl, latency)], readPage r))))"
  by pat_completeness auto
termination
  by (relation "measure (\<lambda>(E, u, redirects). MAX_REDIRECTS - redirects)") auto

text \<open>
  The \<^verbatim>\<open>catch\<close> of the \<^verbatim>\<open>try\<close> block (lines 205-216): the message sent with status 400.
\<close>

definition catchMessage :: "exn \<Rightarrow> string" where
  "catchMessage e =
     (if exn_name e = ''AbortError'' then ''Failed to fetch URL (timeout)''
      else if str_includes (exn_message e) ''Private IP'' \<or> str_includes (exn_message e) ''protocols''
        then exn_message e
      else ''Failed to fetch URL: Invalid URL or network error'')"

text \<open>
  The branch \<^verbatim>\<open>else if (url)\<close> of the handler: the requests made, and either the message
  of the 400 answer or the page with the \<^verbatim>\<open>sourceUrl\<close> handed to \<^verbatim>\<open>extractMetadata\<close>.
  \<^verbatim>\<open>
  const validatedUrl = validateUrl(url);
  sourceUrl = validatedUrl.toString();
  let currentUrl = sourceUrl; ...
  \<close>
\<close>

definition fetchPage :: "env \<Rightarrow> string \<Rightarrow> (string \<times> nat) list \<times> (string + string \<times> string)" where
  "fetchPage E url =
     (case validateUrl E url of
        Inl e \<Rightarrow> ([], Inl (catchMessage e))
      | Inr validatedUrl \<Rightarrow>
          (let sourceUrl = urlToString E validatedUrl in
           case fetchLoop E sourceUrl 0 of
             (requests, Respond400 msg) \<Rightarrow> (requests, Inl msg)
           | (requests, Thrown e) \<Rightarrow> (requests, Inl (catchMessage e))
           | (requests, Html html) \<Rightarrow> (requests, Inr (html, sourceUrl))))"

section \<open>Metadata extraction\<close>

text \<open>The selections the code makes on a page, each in document order.\<close>

text \<open>\<^verbatim>\<open>$('tag')\<close>\<close>

definition byTag :: "string \<Rightarrow> document \<Rightarrow> element list" where
  "byTag tg doc = filter (\<lambda>e. tag e = tg) (elements doc)"

text \<open>\<^verbatim>\<open>$('tag[a="v"]')\<close>\<close>

definition byAttr :: "string \<Rightarrow> string \<Rightarrow> string \<Rightarrow> document \<Rightarrow> element list" where
  "byAttr tg a v doc = filter (\<lambda>e. tag e = tg \<and> map_of (attrs e) a = Some v) (elements doc)"

text \<open>\<^verbatim>\<open>$('tag[a="v"], tag[b="v"]')\<close>\<close>

definition byEitherAttr :: "string \<Rightarrow> string \<Rightarrow> string \<Rightarrow> string \<Rightarrow> document \<Rightarrow> element list" where
  "byEitherAttr tg a b v doc =
     filter (\<lambda>e. tag e = tg \<and> (map_of (attrs e) a = Some v \<or> map_of (attrs e) b = Some v))
       (elements doc)"

text \<open>\<^verbatim>\<open>$('tag[a]')\<close>\<close>

definition havingAttr :: "string \<Rightarrow> string \<Rightarrow> document \<Rightarrow> element list" where
  "havingAttr tg a doc = filter (\<lambda>e. tag e = tg \<and> map_of (attrs e) a \<noteq> None) (elements doc)"

text \<open>\<^verbatim>\<open>.attr(name)\<close> of a selection: the attribute of its first element.\<close>

fun attr :: "element list \<Rightarrow> string \<Rightarrow> string option" where
  "attr [] name = None"
| "attr (e # es) name = map_of (attrs e) name"

text \<open>\<^verbatim>\<open>.text()\<close> of a selection: the text contents of its elements, concatenated.\<close>

definition textOf :: "element list \<Rightarrow> string" where
  "textOf sel = concat (map inner sel)"

text \<open>\<^verbatim>\<open>s.trim()\<close>: the white space among the code units below 256 is TAB, LF, VT, FF,
  CR, SP and NBSP.\<close>

definition isSpace :: "char \<Rightarrow> bool" where
  "isSpace c = ((of_char c :: nat) \<in> set [9, 10, 11, 12, 13, 32, 160])"

definition trim :: "string \<Rightarrow> string" where
  "trim s = rev (dropWhile isSpace (rev (dropWhile isSpace s)))"

record PreviewResponse =
  title :: "string option"
  image' :: "string option"
  price :: "string option"
  currency :: "string option"
  siteName :: "string option"
  sourceUrl :: "string option"

text \<open>The currency the \<^verbatim>\<open>pattern.source.includes\<close> chain gives each pattern.\<close>

fun currencyOf :: "pricePattern \<Rightarrow> string" where
  "currencyOf DollarSign = ''USD''"
| "currencyOf SuffixUSD = ''USD''"
| "currencyOf SuffixEUR = ''EUR''"
| "currencyOf PoundSign = ''GBP''"
| "currencyOf EuroSign = ''EUR''"

text \<open>
  \<^verbatim>\<open>
  for (const pattern of pricePatterns) {
    const match = text.match(pattern);
    if (match) { result.price = match[1] || match[0]; result.currency = ...; break; }
  }
  \<close>
\<close>

fun priceScan :: "env \<Rightarrow> string \<Rightarrow> pricePattern list \<Rightarrow> PreviewResponse \<Rightarrow> PreviewResponse" where
  "priceScan E pageText [] result = result"
| "priceScan E pageText (p # ps) result =
     (case reMatch E p pageText of
        None \<Rightarrow> priceScan E pageText ps result
      | Some (m0, m1) \<Rightarrow>
          result\<lparr>price := Some (if m1 \<noteq> [] then m1 else m0), currency := Some (currencyOf p)\<rparr>)"

text \<open>
  The statements of \<^verbatim>\<open>extractMetadata(html, sourceUrl)\<close> of preview.ts (lines 47-112),
  each as the change it makes to \<open>result\<close>, the object being filled in.
\<close>

text \<open>\<^verbatim>\<open>if (sourceUrl) result.sourceUrl = sourceUrl;\<close>\<close>

definition noteSourceUrl :: "string option \<Rightarrow> PreviewResponse \<Rightarrow> PreviewResponse" where
  "noteSourceUrl src result = (if truthy src then result\<lparr>sourceUrl := src\<rparr> else result)"

text \<open>\<^verbatim>\<open>result.title = $('meta[property="og:title"]').attr('content');\<close>\<close>

definition ogTitle :: "document \<Rightarrow> PreviewResponse \<Rightarrow> PreviewResponse" where
  "ogTitle doc result =
     result\<lparr>title := attr (byAttr ''meta'' ''property'' ''og:title'' doc) ''content''\<rparr>"

text \<open>\<^verbatim>\<open>result.image = $('meta[property="og:image"]').attr('content');\<close>\<close>

definition ogImage :: "document \<Rightarrow> PreviewResponse \<Rightarrow> PreviewResponse" where
  "ogImage doc result =
     result\<lparr>image' := attr (byAttr ''meta'' ''property'' ''og:image'' doc) ''content''\<rparr>"

text \<open>\<^verbatim>\<open>result.siteName = $('meta[property="og:site_name"]').attr('content');\<close>\<close>

definition ogSiteName :: "document \<Rightarrow> PreviewResponse \<Rightarrow> PreviewResponse" where
  "ogSiteName doc result =
     result\<lparr>siteName := attr (byAttr ''meta'' ''property'' ''og:site_name'' doc) ''content''\<rparr>"

text \<open>
  \<^verbatim>\<open>
  const ogPrice = $('meta[property="product:price:amount"]').attr('content');
  const ogCurrency = $('meta[property="product:price:currency"]').attr('content');
  if (ogPrice) { result.price = ogPrice; result.currency = ogCurrency; }
  \<close>
\<close>

definition ogPrice :: "document \<Rightarrow> PreviewResponse \<Rightarrow> PreviewResponse" where
  "ogPrice doc result =
     (if truthy (attr (byAttr ''meta'' ''property'' ''product:price:amount'' doc) ''content'')
      then result\<lparr>price := attr (byAttr ''meta'' ''property'' ''product:price:amount'' doc) ''content'',
                  currency :=
                    attr (byAttr ''meta'' ''property'' ''product:price:currency'' doc) ''content''\<rparr>
      else result)"

text \<open>\<^verbatim>\<open>if (!result.title) result.title =
  $('meta[name="twitter:title"], meta[property="twitter:title"]').attr('content');\<close>\<close>

definition twitterTitle :: "document \<Rightarrow> PreviewResponse \<Rightarrow> PreviewResponse" where
  "twitterTitle doc result =
     (if \<not> truthy (title result)
      then result\<lparr>title :=
             attr (byEitherAttr ''meta'' ''name'' ''property'' ''twitter:title'' doc) ''content''\<rparr>
      else result)"

text \<open>\<^verbatim>\<open>if (!result.image) result.image =
  $('meta[name="twitter:image"], meta[property="twitter:image"]').attr('content');\<close>\<close>

definition twitterImage :: "document \<Rightarrow> PreviewResponse \<Rightarrow> PreviewResponse" where
  "twitterImage doc result =
     (if \<not> truthy (image' result)
      then result\<lparr>image' :=
             attr (byEitherAttr ''meta'' ''name'' ''property'' ''twitter:image'' doc) ''content''\<rparr>
      else result)"

text \<open>\<^verbatim>\<open>if (!result.siteName) result.siteName =
  $('meta[name="twitter:site"], meta[property="twitter:site"]').attr('content');\<close>\<close>

definition twitterSite :: "document \<Rightarrow> PreviewResponse \<Rightarrow> PreviewResponse" where
  "twitterSite doc result =
     (if \<not> truthy (siteName result)
      then result\<lparr>siteName :=
             attr (byEitherAttr ''meta'' ''name'' ''property'' ''twitter:site'' doc) ''content''\<rparr>
      else result)"

text \<open>\<^verbatim>\<open>if (!result.title) result.title =
  $('title').text().trim() || $('h1').first().text().trim();\<close>\<close>

definition titleFallback :: "document \<Rightarrow> PreviewResponse \<Rightarrow> PreviewResponse" where
  "titleFallback doc result =
     (if \<not> truthy (title result)
      then result\<lparr>title :=
             Some (if trim (textOf (byTag ''title'' doc)) \<noteq> []
                   then trim (textOf (byTag ''title'' doc))
                   else trim (textOf (take 1 (byTag ''h1'' doc))))\<rparr>
      else result)"

text \<open>\<^verbatim>\<open>if (!result.image) { const img = $('img[src]').first().attr('src');
  if (img) result.image = img; }\<close>\<close>

definition imageFallback :: "document \<Rightarrow> PreviewResponse \<Rightarrow> PreviewResponse" where
  "imageFallback doc result =
     (if \<not> truthy (image' result) \<and> truthy (attr (take 1 (havingAttr ''img'' ''src'' doc)) ''src'')
      then result\<lparr>image' := attr (take 1 (havingAttr ''img'' ''src'' doc)) ''src''\<rparr>
      else result)"

text \<open>\<^verbatim>\<open>if (!result.siteName && sourceUrl) { try { const url = new URL(sourceUrl);
  result.siteName = url.hostname; } catch {} }\<close>\<close>

definition hostFallback :: "env \<Rightarrow> string option \<Rightarrow> PreviewResponse \<Rightarrow> PreviewResponse" where
  "hostFallback E src result =
     (if \<not> truthy (siteName result) \<and> truthy src
      then (case newURL E (orEmpty src) of
              Inl e \<Rightarrow> result
            | Inr url \<Rightarrow> result\<lparr>siteName := Some (hostname url)\<rparr>)
      else result)"

text \<open>\<^verbatim>\<open>if (!result.price) { const text = $.text(); ... the scan of the patterns ... }\<close>\<close>

definition priceFallback :: "env \<Rightarrow> document \<Rightarrow> PreviewResponse \<Rightarrow> PreviewResponse" where
  "priceFallback E doc result =
     (if \<not> truthy (price result)
      then priceScan E (allText doc) [DollarSign, SuffixUSD, SuffixEUR, PoundSign, EuroSign] result
      else result)"

text \<open>
  The statements in the order of the source. \<open>extractFrom\<close> is the function after its
  first line, \<^verbatim>\<open>const $ = cheerio.load(html)\<close>, on the page \<open>doc\<close> that line gives.
\<close>

definition extractFrom :: "env \<Rightarrow> document \<Rightarrow> string option \<Rightarrow> PreviewResponse" where
  "extractFrom E doc src =
     (let result = \<lparr>title = None, image' = None, price = None, currency = None,
                    siteName = None, sourceUrl = None\<rparr>;
          result = noteSourceUrl src result;
          result = ogTitle doc result;
          result = ogImage doc result;
          result = ogSiteName doc result;
          result = ogPrice doc result;
          result = twitterTitle doc result;
          result = twitterImage doc result;
          result = twitterSite doc result;
          result = titleFallback doc result;
          result = imageFallback doc result;
          result = hostFallback E src result;
          result = priceFallback E doc result
      in result)"

definition extractMetadata :: "env \<Rightarrow> string \<Rightarrow> string option \<Rightarrow> PreviewResponse" where
  "extractMetadata E html src = extractFrom E (load E html) src"

text \<open>
  The helper of utils.ts (lines 128-151), which \<^verbatim>\<open>extractMetadata\<close> does not call:
  \<^verbatim>\<open>
  export function extractMeta($, names) {
    for (const name of names) {
      const selectors = [`meta[name="${name}"]`, `meta[property="${name}"]`,
                         `meta[itemprop="${name}"]`, `meta[http-equiv="${name}"]`];
      for (const sel of selectors) {
        const el = $(sel).first();
        if (el.length) {
          const content = el.attr('content') ?? el.attr('value') ?? el.attr('charset') ?? null;
          if (content && content.trim()) return content.trim();
        }
      }
    }
    return null;
  }
  \<close>
\<close>

text \<open>\<^verbatim>\<open>a ?? b\<close>\<close>

fun orElse :: "string option \<Rightarrow> string option \<Rightarrow> string option" where
  "orElse None y = y"
| "orElse (Some x) y = Some x"

text \<open>The body of the inner loop for one selection \<open>el\<close>: the value returned, if any.\<close>

definition metaContent :: "element list \<Rightarrow> string option" where
  "metaContent el =
     (if el = [] then None
      else let content = orElse (attr el ''content'') (orElse (attr el ''value'') (attr el ''charset''))
           in if truthy content \<and> trim (orEmpty content) \<noteq> [] then Some (trim (orEmpty content))
              else None)"

fun firstHit :: "string option list \<Rightarrow> string option" where
  "firstHit [] = None"
| "firstHit (None # xs) = firstHit xs"
| "firstHit (Some x # xs) = Some x"

definition metaForms :: "string list" where
  "metaForms = [''name'', ''property'', ''itemprop'', ''http-equiv'']"

definition extractMeta :: "document \<Rightarrow> string list \<Rightarrow> string option" where
  "extractMeta doc names =
     firstHit (concat (map (\<lambda>name.
        map (\<lambda>form. metaContent (take 1 (byAttr ''meta'' form name doc))) metaForms) names))"

section \<open>The handler\<close>

text \<open>What \<^verbatim>\<open>previewHandler\<close> sends: the metadata with status 200, or an error message
  with status 400.\<close>

datatype reply = Json PreviewResponse | Error400 string

definition previewHandler :: "env \<Rightarrow> string option \<Rightarrow> string option \<Rightarrow> reply" where
  \<open>previewHandler E url raw_html =
     (if \<not> truthy url \<and> \<not> truthy raw_html
        then Error400 ''Either "url" or "raw_html" must be provided''
      else if truthy raw_html then Json (extractMetadata E (orEmpty raw_html) None)
      else (case snd (fetchPage E (orEmpty url)) of
              Inl msg \<Rightarrow> Error400 msg
            | Inr (html, src) \<Rightarrow> Json (extractMetadata E html (Some src))))\<close>

section \<open>URL normalisation\<close>

definition paramsToRemove :: "string list" where
  "paramsToRemove =
     [''utm_source'', ''utm_medium'', ''utm_campaign'', ''utm_term'', ''utm_content'',
      ''fbclid'', ''fb_action_ids'', ''fb_action_types'', ''fb_ref'', ''fb_source'',
      ''gclid'', ''gclsrc'', ''dclid'',
      ''ref'', ''referrer'', ''source'', ''campaign'', ''medium'',
      ''igshid'', ''ncid'', ''sr_share'',
      ''mc_cid'', ''mc_eid'',
      ''_ga'', ''_gl'', ''hsCtaTracking'']"

text \<open>\<^verbatim>\<open>searchParams.delete(name)\<close>: every pair of that name goes.\<close>

definition deleteParam :: "string \<Rightarrow> (string \<times> string) list \<Rightarrow> (string \<times> string) list" where
  "deleteParam name params = filter (\<lambda>p. fst p \<noteq> name) params"

text \<open>
  \<^verbatim>\<open>
  for (const [key] of urlObj.searchParams) {
    if (key.startsWith('utm_')) urlObj.searchParams.delete(key);
  }
  \<close>
  The iterator of \<^verbatim>\<open>URLSearchParams\<close> is live: it keeps an index into the list, reads the
  pair at that index from the list as it is now, and moves the index on by one. The
  loop state is that index \<open>i\<close> and the list.
\<close>

function utmLoop :: "nat \<Rightarrow> (string \<times> string) list \<Rightarrow> (string \<times> string) list" where
  "utmLoop i params =
     (if i \<ge> length params then params
      else if startsWith (fst (params ! i)) ''utm_''
        then utmLoop (i + 1) (deleteParam (fst (params ! i)) params)
      else utmLoop (i + 1) params)"
  by pat_completeness auto
termination
proof (relation "measure (\<lambda>(i, params). length params - i)")
  show "wf (measure (\<lambda>(i, params). length params - i))"
    by simp
next
  fix i :: nat and params :: "(string \<times> string) list"
  assume "\<not> length params \<le> i"
  moreover have "length (deleteParam (fst (params ! i)) params) \<le> length params"
    by (simp add: deleteParam_def)
  ultimately show "((i + 1, deleteParam (fst (params ! i)) params), (i, params))
      \<in> measure (\<lambda>(i, params). length params - i)"
    by simp
next
  fix i :: nat and params :: "(string \<times> string) list"
  assume "\<not> length params \<le> i"
  then show "((i + 1, params), (i, params)) \<in> measure (\<lambda>(i, params). length params - i)"
    by simp
qed

text \<open>
  \<^verbatim>\<open>normalizeUrl\<close> of utils.ts (lines 87-123). A failing \<^verbatim>\<open>new URL\<close> is caught and the
  input returned. The last step (\<^verbatim>\<open>urlObj.search = ''\<close> when no parameter is left)
  empties a list that is empty already.
\<close>

definition normalizeUrl :: "env \<Rightarrow> string \<Rightarrow> string" where
  "normalizeUrl E url =
     (case newURL E url of
        Inl e \<Rightarrow> url
      | Inr urlObj \<Rightarrow>
          (let urlObj = urlObj\<lparr>hostname := toLowerCase (hostname urlObj)\<rparr>;
               urlObj = urlObj\<lparr>hash := []\<rparr>;
               urlObj = urlObj\<lparr>searchParams := foldl (\<lambda>ps p. deleteParam p ps)
                                                    (searchParams urlObj) paramsToRemove\<rparr>;
               urlObj = urlObj\<lparr>searchParams := utmLoop 0 (searchParams urlObj)\<rparr>;
               urlObj = (if searchParams urlObj = [] then urlObj\<lparr>searchParams := []\<rparr>
                         else urlObj)
           in urlToString E urlObj))"

text \<open>
  \<^verbatim>\<open>normalizeUrl\<close> of the app (app/src/utils/normalizeUrl.ts, lines 6-50): the same
  steps without the last one.
\<close>

definition normalizeUrlApp :: "env \<Rightarrow> string \<Rightarrow> string" where
  "normalizeUrlApp E url =
     (case newURL E url of
        Inl e \<Rightarrow> url
      | Inr urlObj \<Rightarrow>
          (let urlObj = urlObj\<lparr>hostname := toLowerCase (hostname urlObj)\<rparr>;
               urlObj = urlObj\<lparr>hash := []\<rparr>;
               urlObj = urlObj\<lparr>searchParams := foldl (\<lambda>ps p. deleteParam p ps)
                                                    (searchParams urlObj) paramsToRemove\<rparr>;
               urlObj = urlObj\<lparr>searchParams := utmLoop 0 (searchParams urlObj)\<rparr>
           in urlToString E urlObj))"

section \<open>IPv4 addresses and CIDR blocks\<close>

text \<open>The 32-bit value of the address \<open>a.b.c.d\<close>.\<close>

definition dotted :: "nat \<Rightarrow> nat \<Rightarrow> nat \<Rightarrow> nat \<Rightarrow> nat" where
  "dotted a b c d = ((a * 256 + b) * 256 + c) * 256 + d"

text \<open>The 32-bit value of an IPv4 literal.\<close>

definition ipv4Value :: "string \<Rightarrow> nat" where
  "ipv4Value ip = foldl (\<lambda>n seg. 256 * n + decimal seg) 0 (splitOn CHR ''.'' ip)"

text \<open>An address lies in the block \<open>base/bits\<close> when its leading \<open>bits\<close> bits are those
  of \<open>base\<close>.\<close>

definition inCidr :: "nat \<Rightarrow> nat \<Rightarrow> nat \<Rightarrow> bool" where
  "inCidr addr base bits = (addr div 2 ^ (32 - bits) = base div 2 ^ (32 - bits))"

text \<open>The ranges the specification lists: 127.0.0.0/8, 10.0.0.0/8, 172.16.0.0/12,
  192.168.0.0/16, 169.254.0.0/16, 0.0.0.0/8, 224.0.0.0/4, and 240.0.0.0 upwards.\<close>

definition privateRange :: "nat \<Rightarrow> bool" where
  "privateRange addr =
     (inCidr addr (dotted 127 0 0 0) 8 \<or> inCidr addr (dotted 10 0 0 0) 8 \<or>
      inCidr addr (dotted 172 16 0 0) 12 \<or> inCidr addr (dotted 192 168 0 0) 16 \<or>
      inCidr addr (dotted 169 254 0 0) 16 \<or> inCidr addr (dotted 0 0 0 0) 8 \<or>
      inCidr addr (dotted 224 0 0 0) 4 \<or> dotted 240 0 0 0 \<le> addr)"

text \<open>The first five of them.\<close>

definition firstFiveRanges :: "nat \<Rightarrow> bool" where
  "firstFiveRanges addr =
     (inCidr addr (dotted 127 0 0 0) 8 \<or> inCidr addr (dotted 10 0 0 0) 8 \<or>
      inCidr addr (dotted 172 16 0 0) 12 \<or> inCidr addr (dotted 192 168 0 0) 16 \<or>
      inCidr addr (dotted 169 254 0 0) 16)"

section \<open>Redirect chains\<close>

text \<open>
  Where one iteration of the loop goes next: from the request number \<open>n\<close> at \<open>u\<close>, the
  loop follows a redirect exactly when the request settles in time with a redirect
  answer, \<open>n\<close> is below the cap and the target resolves; then this is the next
  \<open>currentUrl\<close>.
\<close>

definition follows :: "env \<Rightarrow> string \<Rightarrow> nat \<Rightarrow> string option" where
  "follows E u n =
     (case net E n u of
        (latency, Inl e) \<Rightarrow> None
      | (latency, Inr r) \<Rightarrow>
          if latency < 5000 \<and> n < MAX_REDIRECTS then
            (case redirectTarget r of
               None \<Rightarrow> None
             | Some loc \<Rightarrow>
                 (case newURLBase E loc u of
                    Inl e \<Rightarrow> None
                  | Inr u' \<Rightarrow> Some (urlToString E u')))
          else None)"

text \<open>The URL reached from \<open>u\<close> at request number \<open>n\<close> by following \<open>k\<close> redirects in
  a row, if the loop follows that many.\<close>

fun hops :: "env \<Rightarrow> string \<Rightarrow> nat \<Rightarrow> nat \<Rightarrow> string option" where
  "hops E u n 0 = Some u"
| "hops E u n (Suc k) =
     (case follows E u n of
        None \<Rightarrow> None
      | Some u' \<Rightarrow> hops E u' (Suc n) k)"

text \<open>The same network with every request settling at once.\<close>

definition instantly :: "env \<Rightarrow> env" where
  "instantly E = E\<lparr>net := (\<lambda>n u. (0, snd (net E n u)))\<rparr>"

text \<open>The total time spent waiting for the requests of a run.\<close>

definition waited :: "(string \<times> nat) list \<Rightarrow> nat" where
  "waited requests = sum_list (map snd requests)"

text \<open>The total time the reads of a body take.\<close>

definition bodyWait :: "response \<Rightarrow> nat" where
  "bodyWait r = sum_list (readTimes r)"

text \<open>The same network with other times for the reads of the bodies: \<open>ts n u\<close> for the
  answer to the request number \<open>n\<close> to \<open>u\<close>.\<close>

definition withReadTimes :: "(nat \<Rightarrow> string \<Rightarrow> nat list) \<Rightarrow> env \<Rightarrow> env" where
  "withReadTimes ts E =
     E\<lparr>net := (\<lambda>n u. case net E n u of
                         (latency, Inl e) \<Rightarrow> (latency, Inl e)
                       | (latency, Inr r) \<Rightarrow> (latency, Inr (r\<lparr>readTimes := ts n u\<rparr>)))\<rparr>"

text \<open>
  The world outside the handler itself supplies an exception named \<^verbatim>\<open>AbortError\<close> at
  the request number \<open>n\<close> to \<open>u\<close>: \<^verbatim>\<open>fetch\<close> rejects with one although nothing aborted
  it, \<^verbatim>\<open>new URL(location, currentUrl)\<close> throws one, or a read of the body rejects with
  one.
\<close>

definition networkAbort :: "env \<Rightarrow> nat \<Rightarrow> string \<Rightarrow> bool" where
  "networkAbort E n u =
     (case snd (net E n u) of
        Inl e \<Rightarrow> exn_name e = ''AbortError''
      | Inr r \<Rightarrow>
          (case redirectTarget r of
             Some loc \<Rightarrow>
               if n < MAX_REDIRECTS then
                 (case newURLBase E loc u of
                    Inl e \<Rightarrow> exn_name e = ''AbortError''
                  | Inr u' \<Rightarrow> False)
               else False
           | None \<Rightarrow>
               (case readPage r of
                  Thrown e \<Rightarrow> exn_name e = ''AbortError''
                | Respond400 msg \<Rightarrow> False
                | Html html \<Rightarrow> False)))"

section \<open>The lookups the specification describes for title and image\<close>

text \<open>
  The first non-empty result of a chain of lookups.
\<close>

fun firstNonEmpty :: "string option list \<Rightarrow> string option" where
  "firstNonEmpty [] = None"
| "firstNonEmpty (x # xs) = (if truthy x then x else firstNonEmpty xs)"

text \<open>
  The title and the image as the specification words them: each meta-tag lookup is the
  four-form lookup \<open>extractMeta\<close> for the candidate name.
\<close>

definition specTitle :: "document \<Rightarrow> string option" where
  "specTitle doc =
     firstNonEmpty [extractMeta doc [''og:title''], extractMeta doc [''twitter:title''],
       Some (trim (textOf (byTag ''title'' doc))), Some (trim (textOf (take 1 (byTag ''h1'' doc))))]"

definition specImage :: "document \<Rightarrow> string option" where
  "specImage doc =
     firstNonEmpty [extractMeta doc [''og:image''], extractMeta doc [''twitter:image''],
       attr (take 1 (havingAttr ''img'' ''src'' doc)) ''src'']"

text \<open>
  The lookups \<^verbatim>\<open>extractMetadata\<close> makes: the \<^verbatim>\<open>content\<close> attribute of the first
  \<^verbatim>\<open>meta\<close> element with the \<^verbatim>\<open>property\<close> form for an OpenGraph name, with the \<^verbatim>\<open>name\<close>
  or the \<^verbatim>\<open>property\<close> form for a Twitter name.
\<close>

definition ogLookup :: "document \<Rightarrow> string \<Rightarrow> string option" where
  "ogLookup doc name = attr (byAttr ''meta'' ''property'' name doc) ''content''"

definition twitterLookup :: "document \<Rightarrow> string \<Rightarrow> string option" where
  "twitterLookup doc name = attr (byEitherAttr ''meta'' ''name'' ''property'' name doc) ''content''"

section \<open>A small world to run the handler in\<close>

text \<open>
  A URL library for URLs of the shape \<^verbatim>\<open>scheme://host[:port][/path][?k=v&...][#fragment]\<close>
  written in lower case with unreserved characters, on which it parses and serialises as
  the WHATWG \<^verbatim>\<open>URL\<close> class does. It is applied below to such URLs only.
\<close>

definition demoQuery :: "string \<Rightarrow> (string \<times> string) list" where
  "demoQuery q =
     map (\<lambda>kv. (takeWhile (\<lambda>c. c \<noteq> CHR ''='') kv, drop 1 (dropWhile (\<lambda>c. c \<noteq> CHR ''='') kv)))
       (filter (\<lambda>kv. kv \<noteq> []) (splitOn CHR ''&'' q))"

definition demoNewURL :: "string \<Rightarrow> exn + URL" where
  "demoNewURL s =
     (let beforeHash = takeWhile (\<lambda>c. c \<noteq> CHR ''#'') s;
          fragment = dropWhile (\<lambda>c. c \<noteq> CHR ''#'') s;
          beforeQuery = takeWhile (\<lambda>c. c \<noteq> CHR ''?'') beforeHash;
          query = drop 1 (dropWhile (\<lambda>c. c \<noteq> CHR ''?'') beforeHash);
          scheme = takeWhile (\<lambda>c. c \<noteq> CHR '':'') beforeQuery;
          afterScheme = dropWhile (\<lambda>c. c \<noteq> CHR '':'') beforeQuery;
          hostPort = takeWhile (\<lambda>c. c \<noteq> CHR ''/'') (drop 3 afterScheme);
          path = dropWhile (\<lambda>c. c \<noteq> CHR ''/'') (drop 3 afterScheme)
      in if scheme = [] \<or> \<not> startsWith afterScheme ''://'' \<or> hostPort = []
         then Inl (Exn ''TypeError'' ''Invalid URL'')
         else Inr \<lparr>protocol = scheme @ '':'', username = [], password = [],
                   hostname = takeWhile (\<lambda>c. c \<noteq> CHR '':'') hostPort,
                   port = drop 1 (dropWhile (\<lambda>c. c \<noteq> CHR '':'') hostPort),
                   pathname = (if path = [] then ''/'' else path),
                   searchParams = demoQuery query,
                   hash = (if fragment = ''#'' then [] else fragment)\<rparr>)"

fun demoJoin :: "(string \<times> string) list \<Rightarrow> string" where
  "demoJoin [] = []"
| "demoJoin [(k, v)] = k @ ''='' @ v"
| "demoJoin ((k, v) # kvs) = k @ ''='' @ v @ ''&'' @ demoJoin kvs"

definition demoToString :: "URL \<Rightarrow> string" where
  "demoToString u =
     protocol u @ ''//'' @ hostname u @ (if port u = [] then [] else '':'' @ port u) @
     pathname u @
     (if searchParams u = [] then [] else ''?'' @ demoJoin (searchParams u)) @ hash u"

text \<open>\<^verbatim>\<open>new URL(s, base)\<close> for an absolute \<open>s\<close>, where the base plays no part.\<close>

definition demoNewURLBase :: "string \<Rightarrow> string \<Rightarrow> exn + URL" where
  "demoNewURLBase s base = demoNewURL s"

text \<open>No string without a colon is an IPv6 literal; the evaluations below classify
  only IPv4 literals and host names without a colon.\<close>

definition demoIPv6 :: "string \<Rightarrow> bool" where
  "demoIPv6 s = False"

definition emptyPage :: document where
  "emptyPage = \<lparr>elements = [], allText = []\<rparr>"

text \<open>The world around a given network; its pages are empty.\<close>

definition demoEnv :: "(nat \<Rightarrow> string \<Rightarrow> nat \<times> (exn + response)) \<Rightarrow> env" where
  "demoEnv network =
     \<lparr>isIPv6 = demoIPv6, newURL = demoNewURL, newURLBase = demoNewURLBase,
      urlToString = demoToString, net = network,
      load = (\<lambda>html. emptyPage), reMatch = (\<lambda>p t. None)\<rparr>"

definition htmlPage :: "string \<Rightarrow> response" where
  "htmlPage html =
     \<lparr>status = 200, location = None, contentType = Some ''text/html; charset=utf-8'',
      body = Some [Chunk html], readTimes = []\<rparr>"

definition redirectTo :: "string \<Rightarrow> response" where
  "redirectTo target =
     \<lparr>status = 302, location = Some target, contentType = None, body = Some [],
      readTimes = []\<rparr>"

text \<open>A server that redirects \<^verbatim>\<open>http://shop.example/item\<close> to a loopback address,
  where a page is served; every request settles after 20 ms.\<close>

definition toLoopback :: "nat \<Rightarrow> string \<Rightarrow> nat \<times> (exn + response)" where
  "toLoopback n u =
     (if u = ''http://shop.example/item'' then (20, Inr (redirectTo ''http://127.0.0.1/admin''))
      else (20, Inr (htmlPage ''<title>internal</title>'')))"

text \<open>A server that answers every request with a redirect to the same place.\<close>

definition redirectsForever :: "nat \<Rightarrow> string \<Rightarrow> nat \<times> (exn + response)" where
  "redirectsForever n u = (20, Inr (redirectTo ''http://shop.example/again''))"

text \<open>A server that answers every request with status 500.\<close>

definition serverError :: "nat \<Rightarrow> string \<Rightarrow> nat \<times> (exn + response)" where
  "serverError n u = (20, Inr \<lparr>status = 500, location = None,
       contentType = Some ''text/html'', body = Some [], readTimes = []\<rparr>)"

text \<open>A server that redirects the first request to \<^verbatim>\<open>http://shop.example/final\<close> and
  serves a page there; each answer takes 4000 ms.\<close>

definition slowRedirect :: "nat \<Rightarrow> string \<Rightarrow> nat \<times> (exn + response)" where
  "slowRedirect n u =
     (if n = 0 then (4000, Inr (redirectTo ''http://shop.example/final''))
      else (4000, Inr (htmlPage ''<title>final</title>'')))"

text \<open>A server that serves a page after \<open>n\<close> redirects.\<close>

definition redirectsThenPage :: "nat \<Rightarrow> nat \<Rightarrow> string \<Rightarrow> nat \<times> (exn + response)" where
  "redirectsThenPage k n u =
     (if n < k then (20, Inr (redirectTo ''http://shop.example/next''))
      else (20, Inr (htmlPage ''<title>final</title>'')))"

text \<open>A resolver for which \<^verbatim>\<open>intranet.corp\<close> is an internal machine.\<close>

definition demoDns :: resolver where
  "demoDns host = (if host = ''intranet.corp'' then Some [''10.0.0.5'']
                   else if host = ''shop.example'' then Some [''93.184.216.34'']
                   else None)"

text \<open>A page whose only OpenGraph title is given in the \<^verbatim>\<open>name\<close> form.\<close>

definition namedOgPage :: document where
  "namedOgPage =
     \<lparr>elements =
        [\<lparr>tag = ''meta'', attrs = [(''name'', ''og:title''), (''content'', ''Shown'')], inner = []\<rparr>,
         \<lparr>tag = ''title'', attrs = [], inner = ''Fallback''\<rparr>,
         \<lparr>tag = ''meta'', attrs = [(''itemprop'', ''og:image''), (''content'', ''a.png'')], inner = []\<rparr>,
         \<lparr>tag = ''img'', attrs = [(''src'', ''b.png'')], inner = []\<rparr>],
      allText = ''Fallback''\<rparr>"

text \<open>\<^verbatim>\<open>http://shop.example/item\<close>, parsed.\<close>

definition shopItem :: URL where
  "shopItem = \<lparr>protocol = ''http:'', username = [], password = [], hostname = ''shop.example'',
                port = [], pathname = ''/item'', searchParams = [], hash = []\<rparr>"

text \<open>A server that redirects the first request to \<^verbatim>\<open>http://shop.example/final\<close> at
  once and takes 6000 ms to answer there.\<close>

definition stallsAfterRedirect :: "nat \<Rightarrow> string \<Rightarrow> nat \<times> (exn + response)" where
  "stallsAfterRedirect n u =
     (if n = 0 then (20, Inr (redirectTo ''http://shop.example/final''))
      else (6000, Inr (htmlPage ''<title>final</title>'')))"

text \<open>A page whose first read takes a minute.\<close>

definition slowPage :: response where
  "slowPage = (htmlPage ''<title>late</title>'')\<lparr>readTimes := [60000, 0]\<rparr>"

text \<open>A server that answers after 20 ms with that page.\<close>

definition slowBody :: "nat \<Rightarrow> string \<Rightarrow> nat \<times> (exn + response)" where
  "slowBody n u = (20, Inr slowPage)"

text \<open>A network whose \<^verbatim>\<open>fetch\<close> rejects after 20 ms with an exception named
  \<^verbatim>\<open>AbortError\<close>, although no timer has fired.\<close>

definition abortsEarly :: "nat \<Rightarrow> string \<Rightarrow> nat \<times> (exn + response)" where
  "abortsEarly n u = (20, Inl (Exn ''AbortError'' ''The user aborted a request''))"

text \<open>A server that cannot be reached.\<close>

definition unreachable :: "nat \<Rightarrow> string \<Rightarrow> nat \<times> (exn + response)" where
  "unreachable n u = (20, Inl (Exn ''TypeError'' ''fetch failed''))"

text \<open>A server that answers with JSON.\<close>

definition servesJson :: "nat \<Rightarrow> string \<Rightarrow> nat \<times> (exn + response)" where
  "servesJson n u = (20, Inr \<lparr>status = 200, location = None,
       contentType = Some ''application/json'', body = Some [Chunk ''{}''],
       readTimes = []\<rparr>)"

text \<open>A server whose page is one byte over the cap.\<close>

definition servesHuge :: "nat \<Rightarrow> string \<Rightarrow> nat \<times> (exn + response)" where
  "servesHuge n u = (20, Inr \<lparr>status = 200, location = None,
       contentType = Some ''text/html'',
       body = Some [Chunk (replicate 524288 CHR ''x''), Chunk ''y''], readTimes = []\<rparr>)"

section \<open>The size cap\<close>

lemma bytesOf_snoc: "bytesOf (chunks @ [v]) = bytesOf chunks + length v"
  by (simp add: bytesOf_def)

lemma readBody_done_state:
  "readBody received chunks evs = BodyDone cs \<Longrightarrow>
     received = bytesOf chunks \<Longrightarrow> received \<le> MAX_SIZE \<Longrightarrow>
     bytesOf cs \<le> MAX_SIZE \<and> cs = chunks @ chunksOf evs \<and> list_all isChunk evs"
proof (induction received chunks evs rule: readBody.induct)
  case (1 received chunks)
  then show ?case by simp
next
  case (2 received chunks e rest)
  then show ?case by simp
next
  case (3 received chunks v rest)
  from "3.prems"(1) have fits: "\<not> received + length v > MAX_SIZE"
    by (simp split: if_splits)
  with "3.prems"(1) have run: "readBody (received + length v) (chunks @ [v]) rest = BodyDone cs"
    by simp
  from "3.prems"(2) have tot: "received + length v = bytesOf (chunks @ [v])"
    by (simp add: bytesOf_snoc)
  from fits have le: "received + length v \<le> MAX_SIZE"
    by simp
  from "3.IH" [OF fits run tot le] show ?case
    by auto
qed

lemma bytesOf_Cons: "bytesOf (v # vs) = length v + bytesOf vs"
  by (simp add: bytesOf_def)

lemma readBody_append:
  "readBody received chunks (pre @ post) =
     (case readBody received chunks pre of
        BodyDone cs \<Rightarrow> readBody (received + bytesOf (chunksOf pre)) cs post
      | TooLarge \<Rightarrow> TooLarge
      | BodyThrows e \<Rightarrow> BodyThrows e)"
proof (induction received chunks pre rule: readBody.induct)
  case (1 received chunks)
  then show ?case by (simp add: bytesOf_def)
next
  case (2 received chunks e rest)
  then show ?case by simp
next
  case (3 received chunks v rest)
  then show ?case
    by (simp add: bytesOf_Cons add.assoc split: body_result.splits)
qed

lemma readBody_fits:
  "list_all isChunk pre \<Longrightarrow> received + bytesOf (chunksOf pre) \<le> MAX_SIZE \<Longrightarrow>
     readBody received chunks pre = BodyDone (chunks @ chunksOf pre)"
proof (induction received chunks pre rule: readBody.induct)
  case (1 received chunks)
  then show ?case by simp
next
  case (2 received chunks e rest)
  then show ?case by simp
next
  case (3 received chunks v rest)
  then show ?case by (simp add: bytesOf_Cons add.assoc)
qed

lemma readBody_too_large:
  "readBody received chunks evs = TooLarge \<Longrightarrow> received \<le> MAX_SIZE \<Longrightarrow>
     \<exists>pre v rest. evs = pre @ Chunk v # rest \<and> list_all isChunk pre \<and>
       received + bytesOf (chunksOf pre) \<le> MAX_SIZE \<and>
       MAX_SIZE < received + bytesOf (chunksOf pre) + length v"
proof (induction received chunks evs rule: readBody.induct)
  case (1 received chunks)
  then show ?case by simp
next
  case (2 received chunks e rest)
  then show ?case by simp
next
  case (3 received chunks v rest)
  show ?case
  proof (cases "received + length v > MAX_SIZE")
    case True
    with "3.prems"(2) have "Chunk v # rest = [] @ Chunk v # rest \<and> list_all isChunk [] \<and>
        received + bytesOf (chunksOf []) \<le> MAX_SIZE \<and>
        MAX_SIZE < received + bytesOf (chunksOf []) + length v"
      by (simp add: bytesOf_def)
    then show ?thesis by blast
  next
    case False
    with "3.prems"(1) have run: "readBody (received + length v) (chunks @ [v]) rest = TooLarge"
      by simp
    from False have le: "received + length v \<le> MAX_SIZE"
      by simp
    from "3.IH" [OF False run le] obtain pre w rest' where
      split: "rest = pre @ Chunk w # rest'" and ch: "list_all isChunk pre" and
      fits: "received + length v + bytesOf (chunksOf pre) \<le> MAX_SIZE" and
      over: "MAX_SIZE < received + length v + bytesOf (chunksOf pre) + length w"
      by blast
    have "Chunk v # rest = (Chunk v # pre) @ Chunk w # rest' \<and>
        list_all isChunk (Chunk v # pre) \<and>
        received + bytesOf (chunksOf (Chunk v # pre)) \<le> MAX_SIZE \<and>
        MAX_SIZE < received + bytesOf (chunksOf (Chunk v # pre)) + length w"
      using split ch fits over by (simp add: bytesOf_Cons add.assoc)
    then show ?thesis by blast
  qed
qed

section \<open>The redirect loop\<close>

declare fetchLoop.simps [simp del]

lemma fetchLoop_follow:
  "follows E u n = Some u' \<Longrightarrow>
     fetchLoop E u n =
       ((u, fst (net E n u)) # fst (fetchLoop E u' (Suc n)), snd (fetchLoop E u' (Suc n)))"
  by (subst fetchLoop.simps)
     (auto simp add: follows_def split: prod.splits sum.splits option.splits if_splits)

lemma fetchLoop_timeout:
  "5000 \<le> fst (net E n u) \<Longrightarrow> fetchLoop E u n = ([(u, 5000)], Thrown abortError)"
  by (subst fetchLoop.simps) (auto split: prod.splits)

lemma fetchLoop_rejected:
  "net E n u = (l, Inl e) \<Longrightarrow> l < 5000 \<Longrightarrow> fetchLoop E u n = ([(u, l)], Thrown e)"
  by (subst fetchLoop.simps) auto

lemma fetchLoop_page:
  "net E n u = (l, Inr r) \<Longrightarrow> l < 5000 \<Longrightarrow> redirectTarget r = None \<Longrightarrow>
     fetchLoop E u n = ([(u, l)], readPage r)"
  by (subst fetchLoop.simps) auto

lemma fetchLoop_cap:
  "net E n u = (l, Inr r) \<Longrightarrow> l < 5000 \<Longrightarrow> redirectTarget r = Some loc \<Longrightarrow>
     MAX_REDIRECTS \<le> n \<Longrightarrow>
     fetchLoop E u n = ([(u, l)], Respond400 ''Failed to fetch URL'')"
  by (subst fetchLoop.simps) auto

lemma fetchLoop_unresolved:
  "net E n u = (l, Inr r) \<Longrightarrow> l < 5000 \<Longrightarrow> redirectTarget r = Some loc \<Longrightarrow>
     n < MAX_REDIRECTS \<Longrightarrow> newURLBase E loc u = Inl e \<Longrightarrow>
     fetchLoop E u n = ([(u, l)], Thrown e)"
  by (subst fetchLoop.simps) auto

lemma fetchLoop_stop:
  "follows E u n = None \<Longrightarrow> length (fst (fetchLoop E u n)) = 1"
  by (subst fetchLoop.simps)
     (auto simp add: follows_def split: prod.splits sum.splits option.splits if_splits)

lemma follows_below_cap: "follows E u n = Some u' \<Longrightarrow> n < MAX_REDIRECTS"
  by (auto simp add: follows_def split: prod.splits sum.splits option.splits if_splits)

lemma fetchLoop_requests_bound:
  "length (fst (fetchLoop E u n)) \<le> Suc (MAX_REDIRECTS - n)"
proof (induction "MAX_REDIRECTS - n" arbitrary: n u)
  case 0
  have "follows E u n = None"
  proof (cases "follows E u n")
    case None
    then show ?thesis .
  next
    case (Some u')
    from follows_below_cap [OF this] 0 show ?thesis by simp
  qed
  then show ?case by (simp add: fetchLoop_stop)
next
  case (Suc k)
  show ?case
  proof (cases "follows E u n")
    case None
    then show ?thesis by (simp add: fetchLoop_stop)
  next
    case (Some u')
    from Suc.hyps(2) have k: "k = MAX_REDIRECTS - Suc n" by simp
    from Suc.hyps(1) [OF k, of u'] Suc.hyps(2) show ?thesis
      by (simp add: fetchLoop_follow [OF Some])
  qed
qed

lemma fetchLoop_hops:
  "hops E u n k = Some uk \<Longrightarrow>
     snd (fetchLoop E u n) = snd (fetchLoop E uk (n + k)) \<and>
     length (fst (fetchLoop E u n)) = k + length (fst (fetchLoop E uk (n + k))) \<and>
     last (fst (fetchLoop E u n)) = last (fst (fetchLoop E uk (n + k)))"
proof (induction k arbitrary: u n)
  case 0
  then show ?case by simp
next
  case (Suc k)
  from Suc.prems obtain u' where f: "follows E u n = Some u'" and h: "hops E u' (Suc n) k = Some uk"
    by (auto split: option.splits)
  have ne: "fst (fetchLoop E u' (Suc n)) \<noteq> []"
    by (subst fetchLoop.simps) (auto split: prod.splits sum.splits option.splits)
  from Suc.IH [OF h] ne show ?case
    by (simp add: fetchLoop_follow [OF f])
qed

lemma fetchPage_valid:
  "validateUrl E url = Inr v \<Longrightarrow>
     fetchPage E url =
       (fst (fetchLoop E (urlToString E v) 0),
        (case snd (fetchLoop E (urlToString E v) 0) of
           Respond400 msg \<Rightarrow> Inl msg
         | Thrown e \<Rightarrow> Inl (catchMessage e)
         | Html html \<Rightarrow> Inr (html, urlToString E v)))"
  by (simp add: fetchPage_def Let_def split: prod.splits attempt.splits)

lemma fetchPage_invalid:
  "validateUrl E url = Inl e \<Longrightarrow> fetchPage E url = ([], Inl (catchMessage e))"
  by (simp add: fetchPage_def)

lemma fetchPage_hops:
  "validateUrl E url = Inr v \<Longrightarrow> hops E (urlToString E v) 0 k = Some uk \<Longrightarrow>
     fetchLoop E uk k = ([(uk, l)], a) \<Longrightarrow>
     fetchPage E url =
       (fst (fetchPage E url),
        (case a of
           Respond400 msg \<Rightarrow> Inl msg
         | Thrown e \<Rightarrow> Inl (catchMessage e)
         | Html html \<Rightarrow> Inr (html, urlToString E v))) \<and>
     length (fst (fetchPage E url)) = Suc k \<and>
     last (fst (fetchPage E url)) = (uk, l)"
  using fetchLoop_hops [of E "urlToString E v" 0 k uk]
  by (simp add: fetchPage_valid)

lemma readPage_html:
  "readPage r = Html html \<Longrightarrow>
     \<exists>evs. body r = Some evs \<and> readBody 0 [] evs = BodyDone (chunksOf evs) \<and>
       html = concat (chunksOf evs) \<and> length html \<le> MAX_SIZE"
proof -
  assume h: "readPage r = Html html"
  then obtain evs cs where b: "body r = Some evs" and rb: "readBody 0 [] evs = BodyDone cs"
    and c: "html = concat cs"
    by (auto simp add: readPage_def split: if_splits option.splits body_result.splits)
  have "bytesOf cs \<le> MAX_SIZE \<and> cs = [] @ chunksOf evs \<and> list_all isChunk evs"
    by (rule readBody_done_state [OF rb]) (simp_all add: bytesOf_def)
  with b rb c show ?thesis
    by (auto simp add: bytesOf_def)
qed

lemma fetchLoop_html:
  "snd (fetchLoop E u n) = Html html \<Longrightarrow> length html \<le> MAX_SIZE"
proof (induction "MAX_REDIRECTS - n" arbitrary: n u)
  case 0
  have stop: "follows E u n = None"
  proof (cases "follows E u n")
    case None
    then show ?thesis .
  next
    case (Some u')
    from follows_below_cap [OF this] 0(1) show ?thesis by simp
  qed
  from 0(2) stop obtain r where "readPage r = Html html"
    by (subst (asm) fetchLoop.simps)
       (auto simp add: follows_def split: prod.splits sum.splits option.splits if_splits)
  then show ?case by (auto dest: readPage_html)
next
  case (Suc k)
  show ?case
  proof (cases "follows E u n")
    case None
    with Suc(3) obtain r where "readPage r = Html html"
      by (subst (asm) fetchLoop.simps)
         (auto simp add: follows_def split: prod.splits sum.splits option.splits if_splits)
    then show ?thesis by (auto dest: readPage_html)
  next
    case (Some u')
    from Suc(2) have k: "k = MAX_REDIRECTS - Suc n" by simp
    from Suc(3) have "snd (fetchLoop E u' (Suc n)) = Html html"
      by (simp add: fetchLoop_follow [OF Some])
    from Suc(1) [OF k this] show ?thesis .
  qed
qed

lemma fetchPage_html:
  "snd (fetchPage E url) = Inr (html, src) \<Longrightarrow> length html \<le> MAX_SIZE"
proof (cases "validateUrl E url")
  case (Inl e)
  assume "snd (fetchPage E url) = Inr (html, src)"
  with Inl show ?thesis by (simp add: fetchPage_invalid)
next
  case (Inr v)
  assume "snd (fetchPage E url) = Inr (html, src)"
  with Inr have "snd (fetchLoop E (urlToString E v) 0) = Html html"
    by (auto simp add: fetchPage_valid split: attempt.splits)
  then show ?thesis by (rule fetchLoop_html)
qed

text \<open>
  C3. The bytes the body loop has buffered never exceed 512 * 1024. Whenever the loop
  ends normally, on the whole stream or on any prefix of it (so at every moment of the
  read), the buffered chunks are exactly the chunks read and hold at most 512 * 1024
  bytes. The moment the running total plus the next chunk would exceed the cap, the
  loop ends with the size-limit answer whatever the rest of the stream holds (it is
  never read), with no more than the cap buffered until then; and the size-limit answer
  arises in no other way. For the handler: a response that passes the status and
  content-type checks and whose body overflows is answered with
  \<^verbatim>\<open>Content size exceeds 512KB limit\<close>, and the page of every successful fetch holds at
  most 512 * 1024 bytes.
\<close>

theorem body_read_within_cap:
  "(\<forall>cs. readBody 0 [] evs = BodyDone cs \<longrightarrow>
       bytesOf cs \<le> 512 * 1024 \<and> cs = chunksOf evs \<and> list_all isChunk evs) \<and>
   (\<forall>pre post cs. evs = pre @ post \<and> readBody 0 [] pre = BodyDone cs \<longrightarrow>
       bytesOf cs \<le> 512 * 1024 \<and> readBody 0 [] evs = readBody (bytesOf cs) cs post) \<and>
   (\<forall>pre v rest. list_all isChunk pre \<and> bytesOf (chunksOf pre) \<le> 512 * 1024 \<and>
       512 * 1024 < bytesOf (chunksOf pre) + length v \<longrightarrow>
       readBody 0 [] pre = BodyDone (chunksOf pre) \<and>
       readBody 0 [] (pre @ Chunk v # rest) = TooLarge) \<and>
   (readBody 0 [] evs = TooLarge \<longrightarrow>
       (\<exists>pre v rest. evs = pre @ Chunk v # rest \<and> list_all isChunk pre \<and>
          bytesOf (chunksOf pre) \<le> 512 * 1024 \<and>
          512 * 1024 < bytesOf (chunksOf pre) + length v)) \<and>
   (ok r \<and> str_includes (orEmpty (contentType r)) ''text/html'' \<and> body r = Some evs \<and>
      readBody 0 [] evs = TooLarge \<longrightarrow>
        readPage r = Respond400 ''Content size exceeds 512KB limit'') \<and>
   (\<forall>html src. snd (fetchPage E url) = Inr (html, src) \<longrightarrow> length html \<le> 512 * 1024)"
proof (intro conjI allI impI)
  fix cs
  assume fin: "readBody 0 [] evs = BodyDone cs"
  have "bytesOf cs \<le> MAX_SIZE \<and> cs = [] @ chunksOf evs \<and> list_all isChunk evs"
    by (rule readBody_done_state [OF fin]) (simp_all add: bytesOf_def)
  then show "bytesOf cs \<le> 512 * 1024" and "cs = chunksOf evs" and "list_all isChunk evs"
    by (auto simp add: MAX_SIZE_def)
next
  fix pre post cs
  assume h: "evs = pre @ post \<and> readBody 0 [] pre = BodyDone cs"
  then have fin: "readBody 0 [] pre = BodyDone cs" by simp
  have st: "bytesOf cs \<le> MAX_SIZE \<and> cs = [] @ chunksOf pre \<and> list_all isChunk pre"
    by (rule readBody_done_state [OF fin]) (simp_all add: bytesOf_def)
  then show "bytesOf cs \<le> 512 * 1024"
    by (auto simp add: MAX_SIZE_def)
  from st have "cs = chunksOf pre" by simp
  with h show "readBody 0 [] evs = readBody (bytesOf cs) cs post"
    by (simp add: readBody_append)
next
  fix pre and v :: string and rest
  assume h: "list_all isChunk pre \<and> bytesOf (chunksOf pre) \<le> 512 * 1024 \<and>
       512 * 1024 < bytesOf (chunksOf pre) + length v"
  then have fit: "readBody 0 [] pre = BodyDone ([] @ chunksOf pre)"
    by (intro readBody_fits) (simp_all add: MAX_SIZE_def)
  then show "readBody 0 [] pre = BodyDone (chunksOf pre)" by simp
  from fit h show "readBody 0 [] (pre @ Chunk v # rest) = TooLarge"
    by (simp add: readBody_append MAX_SIZE_def)
next
  assume "readBody 0 [] evs = TooLarge"
  from readBody_too_large [OF this] show
    "\<exists>pre v rest. evs = pre @ Chunk v # rest \<and> list_all isChunk pre \<and>
          bytesOf (chunksOf pre) \<le> 512 * 1024 \<and>
          512 * 1024 < bytesOf (chunksOf pre) + length v"
    by (simp add: MAX_SIZE_def)
next
  assume "ok r \<and> str_includes (orEmpty (contentType r)) ''text/html'' \<and> body r = Some evs \<and>
      readBody 0 [] evs = TooLarge"
  then show "readPage r = Respond400 ''Content size exceeds 512KB limit''"
    by (simp add: readPage_def)
next
  fix html src
  assume "snd (fetchPage E url) = Inr (html, src)"
  from fetchPage_html [OF this] show "length html \<le> 512 * 1024"
    by (simp add: MAX_SIZE_def)
qed

theorem body_read_within_cap_witness:
  "readBody 0 [] [Chunk ''ab'', Chunk ''c''] = BodyDone [''ab'', ''c''] \<and>
   bytesOf [''ab'', ''c''] \<le> 512 * 1024 \<and>
   readBody 0 [] [Chunk ''ab''] = BodyDone [''ab''] \<and>
   readBody 0 [] [Chunk (replicate 524288 CHR ''x'')]
     = BodyDone [replicate 524288 CHR ''x''] \<and>
   readBody 0 [] [Chunk (replicate 524288 CHR ''x''), Chunk ''y'', Chunk ''z''] = TooLarge"
  using body_read_within_cap [of "[Chunk ''ab'', Chunk ''c'']"]
    body_read_within_cap [of "[Chunk (replicate 524288 CHR ''x''), Chunk ''y'', Chunk ''z'']"]
  by (simp add: MAX_SIZE_def bytesOf_def)

text \<open>
  C4. The fetcher follows at most 3 redirects. A handler call makes at most 4 requests
  (the first and 3 redirect targets). When three redirects have been followed and the
  fourth request is answered with a redirect again, the call fails with the 400 answer
  \<^verbatim>\<open>Failed to fetch URL\<close> after exactly 4 requests, the last of them to the third
  target: the fourth target is never contacted. When \<open>k \<le> 3\<close> redirects have been
  followed and the next answer is a page that passes the checks, the call succeeds with
  that page.
\<close>

theorem at_most_three_redirects:
  "length (fst (fetchPage E url)) \<le> 4 \<and>
   (\<forall>v u3 l r loc.
      validateUrl E url = Inr v \<and> hops E (urlToString E v) 0 3 = Some u3 \<and>
      net E 3 u3 = (l, Inr r) \<and> l < 5000 \<and> redirectTarget r = Some loc \<longrightarrow>
        snd (fetchPage E url) = Inl ''Failed to fetch URL'' \<and>
        length (fst (fetchPage E url)) = 4 \<and>
        last (fst (fetchPage E url)) = (u3, l)) \<and>
   (\<forall>v k uk l r html.
      validateUrl E url = Inr v \<and> k \<le> 3 \<and> hops E (urlToString E v) 0 k = Some uk \<and>
      net E k uk = (l, Inr r) \<and> l < 5000 \<and> redirectTarget r = None \<and>
      readPage r = Html html \<longrightarrow>
        snd (fetchPage E url) = Inr (html, urlToString E v) \<and>
        length (fst (fetchPage E url)) = Suc k \<and>
        last (fst (fetchPage E url)) = (uk, l))"
proof (intro conjI allI impI)
  show "length (fst (fetchPage E url)) \<le> 4"
  proof (cases "validateUrl E url")
    case (Inl e)
    then show ?thesis by (simp add: fetchPage_invalid)
  next
    case (Inr v)
    with fetchLoop_requests_bound [of E "urlToString E v" 0] show ?thesis
      by (simp add: fetchPage_valid MAX_REDIRECTS_def)
  qed
next
  fix v u3 l r loc
  assume h: "validateUrl E url = Inr v \<and> hops E (urlToString E v) 0 3 = Some u3 \<and>
      net E 3 u3 = (l, Inr r) \<and> l < 5000 \<and> redirectTarget r = Some loc"
  then have stop: "fetchLoop E u3 3 = ([(u3, l)], Respond400 ''Failed to fetch URL'')"
    by (intro fetchLoop_cap [of E 3 u3 l r loc]) (simp_all add: MAX_REDIRECTS_def)
  from h have "validateUrl E url = Inr v" and "hops E (urlToString E v) 0 3 = Some u3"
    by simp_all
  note run = fetchPage_hops [OF this stop]
  from run show "snd (fetchPage E url) = Inl ''Failed to fetch URL''"
    by (metis attempt.simps(10) snd_conv)
  from run show "length (fst (fetchPage E url)) = 4"
    by simp
  from run show "last (fst (fetchPage E url)) = (u3, l)"
    by simp
next
  fix v k uk l r html
  assume h: "validateUrl E url = Inr v \<and> k \<le> 3 \<and> hops E (urlToString E v) 0 k = Some uk \<and>
      net E k uk = (l, Inr r) \<and> l < 5000 \<and> redirectTarget r = None \<and>
      readPage r = Html html"
  then have stop: "fetchLoop E uk k = ([(uk, l)], Html html)"
    using fetchLoop_page [of E k uk l r] by simp
  from h have "validateUrl E url = Inr v" and "hops E (urlToString E v) 0 k = Some uk"
    by simp_all
  note run = fetchPage_hops [OF this stop]
  from run show "snd (fetchPage E url) = Inr (html, urlToString E v)"
    by (metis attempt.simps(12) snd_conv)
  from run show "length (fst (fetchPage E url)) = Suc k"
    by simp
  from run show "last (fst (fetchPage E url)) = (uk, l)"
    by simp
qed


theorem at_most_three_redirects_witness:
  "snd (fetchPage (demoEnv redirectsForever) ''http://shop.example/item'')
     = Inl ''Failed to fetch URL'' \<and>
   length (fst (fetchPage (demoEnv redirectsForever) ''http://shop.example/item'')) = 4 \<and>
   snd (fetchPage (demoEnv (redirectsThenPage 3)) ''http://shop.example/item'')
     = Inr (''<title>final</title>'', ''http://shop.example/item'') \<and>
   length (fst (fetchPage (demoEnv (redirectsThenPage 3)) ''http://shop.example/item'')) = 4"
proof -
  let ?u = "''http://shop.example/item''"
  let ?A = "demoEnv redirectsForever"
  let ?B = "demoEnv (redirectsThenPage 3)"
  have s: "urlToString ?A shopItem = ?u" "urlToString ?B shopItem = ?u"
    by code_simp+
  have vA: "validateUrl ?A ?u = Inr shopItem"
    by code_simp
  have hA: "hops ?A (urlToString ?A shopItem) 0 3 = Some ''http://shop.example/again''"
    by code_simp
  have nA: "net ?A 3 ''http://shop.example/again''
      = (20, Inr (redirectTo ''http://shop.example/again''))"
    by (simp add: demoEnv_def redirectsForever_def)
  have rA: "redirectTarget (redirectTo ''http://shop.example/again'')
      = Some ''http://shop.example/again''"
    by code_simp
  have vB: "validateUrl ?B ?u = Inr shopItem"
    by code_simp
  have hB: "hops ?B (urlToString ?B shopItem) 0 3 = Some ''http://shop.example/next''"
    by (simp add: numeral_3_eq_3 follows_def demoEnv_def redirectsThenPage_def redirectTo_def
        redirectTarget_def MAX_REDIRECTS_def demoNewURLBase_def demoNewURL_def demoToString_def
        startsWith_def demoQuery_def shopItem_def)
  have nB: "net ?B 3 ''http://shop.example/next'' = (20, Inr (htmlPage ''<title>final</title>''))"
    by (simp add: demoEnv_def redirectsThenPage_def)
  have rB: "redirectTarget (htmlPage ''<title>final</title>'') = None"
    by code_simp
  have pB: "readPage (htmlPage ''<title>final</title>'') = Html ''<title>final</title>''"
    by (simp add: readPage_def htmlPage_def ok_def startsWith_def MAX_SIZE_def)
  from at_most_three_redirects [of ?A ?u, THEN conjunct2, THEN conjunct1, rule_format,
      of shopItem "''http://shop.example/again''" 20 "redirectTo ''http://shop.example/again''"
         "''http://shop.example/again''"]
    vA hA nA rA
  have a: "snd (fetchPage ?A ?u) = Inl ''Failed to fetch URL'' \<and>
      length (fst (fetchPage ?A ?u)) = 4"
    by simp
  from at_most_three_redirects [of ?B ?u, THEN conjunct2, THEN conjunct2, rule_format,
      of shopItem 3 "''http://shop.example/next''" 20 "htmlPage ''<title>final</title>''"
         "''<title>final</title>''"]
    vB hB nB rB pB s
  have b: "snd (fetchPage ?B ?u) = Inr (''<title>final</title>'', ?u) \<and>
      length (fst (fetchPage ?B ?u)) = 4"
    by simp
  from a b show ?thesis by simp
qed

section \<open>The private-network classifiers\<close>

text \<open>
  What the two classifiers answer on the IPv4 literals: \<^verbatim>\<open>isPrivateIPv4\<close> of utils.ts is
  true exactly on the listed ranges, \<^verbatim>\<open>isPrivateIP\<close> of preview.ts exactly on the first
  five of them.
\<close>

lemma v4Seg_Number: "v4Seg s \<Longrightarrow> Number s = Num (int (decimal s)) \<and> decimal s \<le> 255"
  by (simp add: v4Seg_def Number_def)

lemma isIPv4_octets:
  assumes "isIPv4 ip"
  obtains s0 s1 s2 s3 where "splitOn CHR ''.'' ip = [s0, s1, s2, s3]"
    and "v4Seg s0" and "v4Seg s1" and "v4Seg s2" and "v4Seg s3"
proof -
  from assms have len: "length (splitOn CHR ''.'' ip) = 4"
    and all: "list_all v4Seg (splitOn CHR ''.'' ip)"
    by (simp_all add: isIPv4_def Let_def)
  from len obtain s0 s1 s2 s3 where eq: "splitOn CHR ''.'' ip = [s0, s1, s2, s3]"
    by (auto simp add: length_Suc_conv numeral_eq_Suc)
  with all that show ?thesis by simp
qed

lemma div_split:
  fixes q r n :: nat
  shows "r < n \<Longrightarrow> (q * n + r) div n = q"
  by simp

lemma cidr8:
  fixes a b c d :: nat
  assumes "b \<le> 255" "c \<le> 255" "d \<le> 255"
  shows "dotted a b c d div 16777216 = a"
proof -
  have r: "b * 65536 + c * 256 + d < 16777216" using assms by linarith
  have "dotted a b c d = a * 16777216 + (b * 65536 + c * 256 + d)"
    by (simp add: dotted_def)
  with div_split [OF r, of a] show ?thesis by simp
qed

lemma cidr16:
  fixes a b c d :: nat
  assumes "c \<le> 255" "d \<le> 255"
  shows "dotted a b c d div 65536 = a * 256 + b"
proof -
  have r: "c * 256 + d < 65536" using assms by linarith
  have "dotted a b c d = (a * 256 + b) * 65536 + (c * 256 + d)"
    by (simp add: dotted_def)
  with div_split [OF r, of "a * 256 + b"] show ?thesis by simp
qed

lemma cidr12:
  fixes a b c d :: nat
  assumes "c \<le> 255" "d \<le> 255"
  shows "dotted a b c d div 1048576 = a * 16 + b div 16"
proof -
  define q m where "q = b div 16" and "m = b mod 16"
  have m: "m \<le> 15" and b: "b = q * 16 + m"
    by (simp_all add: q_def m_def)
  have r: "m * 65536 + c * 256 + d < 1048576" using assms m by linarith
  have "dotted a (q * 16 + m) c d = (a * 16 + q) * 1048576 + (m * 65536 + c * 256 + d)"
    by (simp add: dotted_def algebra_simps)
  with div_split [OF r, of "a * 16 + q"] have "dotted a (q * 16 + m) c d div 1048576 = a * 16 + q"
    by simp
  then show ?thesis
    unfolding b [symmetric] by (simp add: q_def)
qed

lemma cidr4:
  fixes a b c d :: nat
  assumes "b \<le> 255" "c \<le> 255" "d \<le> 255"
  shows "dotted a b c d div 268435456 = a div 16"
proof -
  define q m where "q = a div 16" and "m = a mod 16"
  have m: "m \<le> 15" and a: "a = q * 16 + m"
    by (simp_all add: q_def m_def)
  have r: "m * 16777216 + b * 65536 + c * 256 + d < 268435456" using assms m by linarith
  have "dotted (q * 16 + m) b c d = q * 268435456 + (m * 16777216 + b * 65536 + c * 256 + d)"
    by (simp add: dotted_def algebra_simps)
  with div_split [OF r, of q] have "dotted (q * 16 + m) b c d div 268435456 = q"
    by simp
  then show ?thesis
    unfolding a [symmetric] by (simp add: q_def)
qed

lemma reserved:
  fixes a b c d :: nat
  assumes "b \<le> 255" "c \<le> 255" "d \<le> 255"
  shows "(dotted 240 0 0 0 \<le> dotted a b c d) = (240 \<le> a)"
  using assms by (simp add: dotted_def) linarith


lemma digit_pair:
  fixes a b x y n :: nat
  assumes "b < n" "y < n"
  shows "(a * n + b = x * n + y) = (a = x \<and> b = y)"
proof
  assume eq: "a * n + b = x * n + y"
  from assms have "(a * n + b) div n = a" "(x * n + y) div n = x"
    by simp_all
  with eq have "a = x" by simp
  with eq show "a = x \<and> b = y" by simp
next
  assume "a = x \<and> b = y"
  then show "a * n + b = x * n + y" by simp
qed

lemma cidr_octets:
  fixes a b c d :: nat
  assumes "a \<le> 255" "b \<le> 255" "c \<le> 255" "d \<le> 255"
  shows "inCidr (dotted a b c d) (dotted 127 0 0 0) 8 = (a = 127)"
    and "inCidr (dotted a b c d) (dotted 10 0 0 0) 8 = (a = 10)"
    and "inCidr (dotted a b c d) (dotted 172 16 0 0) 12 = (a = 172 \<and> 16 \<le> b \<and> b \<le> 31)"
    and "inCidr (dotted a b c d) (dotted 192 168 0 0) 16 = (a = 192 \<and> b = 168)"
    and "inCidr (dotted a b c d) (dotted 169 254 0 0) 16 = (a = 169 \<and> b = 254)"
    and "inCidr (dotted a b c d) (dotted 0 0 0 0) 8 = (a = 0)"
    and "inCidr (dotted a b c d) (dotted 224 0 0 0) 4 = (224 \<le> a \<and> a \<le> 239)"
proof -
  show "inCidr (dotted a b c d) (dotted 127 0 0 0) 8 = (a = 127)"
    using assms by (simp add: inCidr_def cidr8)
  show "inCidr (dotted a b c d) (dotted 10 0 0 0) 8 = (a = 10)"
    using assms by (simp add: inCidr_def cidr8)
  show "inCidr (dotted a b c d) (dotted 0 0 0 0) 8 = (a = 0)"
    using assms by (simp add: inCidr_def cidr8)
  show "inCidr (dotted a b c d) (dotted 192 168 0 0) 16 = (a = 192 \<and> b = 168)"
    using assms digit_pair [of b 256 168 a 192] by (simp add: inCidr_def cidr16)
  show "inCidr (dotted a b c d) (dotted 169 254 0 0) 16 = (a = 169 \<and> b = 254)"
    using assms digit_pair [of b 256 254 a 169] by (simp add: inCidr_def cidr16)
  have "b div 16 < 16" using assms by simp
  then have "(a * 16 + b div 16 = 172 * 16 + 1) = (a = 172 \<and> b div 16 = 1)"
    by (intro digit_pair) simp_all
  moreover have "(b div 16 = 1) = (16 \<le> b \<and> b \<le> 31)"
    by linarith
  ultimately have "(a * 16 + b div 16 = 2753) = (a = 172 \<and> 16 \<le> b \<and> b \<le> 31)"
    by simp
  then show "inCidr (dotted a b c d) (dotted 172 16 0 0) 12 = (a = 172 \<and> 16 \<le> b \<and> b \<le> 31)"
    using assms by (simp add: inCidr_def cidr12)
  have "(a div 16 = 14) = (224 \<le> a \<and> a \<le> 239)"
    by linarith
  then show "inCidr (dotted a b c d) (dotted 224 0 0 0) 4 = (224 \<le> a \<and> a \<le> 239)"
    using assms by (simp add: inCidr_def cidr4)
qed

lemma ipv4Value_octets:
  "splitOn CHR ''.'' ip = [s0, s1, s2, s3] \<Longrightarrow>
     ipv4Value ip = dotted (decimal s0) (decimal s1) (decimal s2) (decimal s3)"
  by (simp add: ipv4Value_def dotted_def)

lemma isPrivateIPv4_exact:
  assumes "isIPv4 ip"
  shows "isPrivateIPv4 ip = privateRange (ipv4Value ip)"
proof -
  from assms obtain s0 s1 s2 s3 where sp: "splitOn CHR ''.'' ip = [s0, s1, s2, s3]"
    and v: "v4Seg s0" "v4Seg s1" "v4Seg s2" "v4Seg s3"
    by (rule isIPv4_octets)
  note n = v [THEN v4Seg_Number]
  from n have le: "decimal s0 \<le> 255" "decimal s1 \<le> 255" "decimal s2 \<le> 255" "decimal s3 \<le> 255"
    by simp_all
  have "isPrivateIPv4 ip =
      (decimal s0 = 127 \<or> decimal s0 = 10 \<or>
       (decimal s0 = 172 \<and> 16 \<le> decimal s1 \<and> decimal s1 \<le> 31) \<or>
       (decimal s0 = 192 \<and> decimal s1 = 168) \<or> (decimal s0 = 169 \<and> decimal s1 = 254) \<or>
       decimal s0 = 0 \<or> (224 \<le> decimal s0 \<and> decimal s0 \<le> 239) \<or> 240 \<le> decimal s0)"
    using n by (auto simp add: isPrivateIPv4_def sp badPart_def)
  also have "\<dots> = privateRange (ipv4Value ip)"
    using le by (simp add: privateRange_def ipv4Value_octets [OF sp] cidr_octets reserved)
  finally show ?thesis .
qed

lemma splitOn_nonempty: "splitOn sep s \<noteq> []"
  by (induction s) (auto split: list.splits)

lemma splitOn_first: "splitOn sep s = p # ps \<Longrightarrow> \<exists>rest. s = p @ rest"
proof (induction s arbitrary: p ps)
  case Nil
  then show ?case by simp
next
  case (Cons c cs)
  show ?case
  proof (cases "c = sep")
    case True
    with Cons.prems show ?thesis by auto
  next
    case False
    with Cons.prems splitOn_nonempty [of sep cs]
    obtain q qs where sp: "splitOn sep cs = q # qs" and p: "p = c # q"
      by (auto split: list.splits)
    from Cons.IH [OF sp] p show ?thesis by auto
  qed
qed

lemma isIPv4_starts_with_digit:
  assumes "isIPv4 ip"
  shows "\<exists>c cs. ip = c # cs \<and> isDigit c"
proof -
  from assms obtain s0 s1 s2 s3 where sp: "splitOn CHR ''.'' ip = [s0, s1, s2, s3]"
    and v: "v4Seg s0"
    by (rule isIPv4_octets)
  from splitOn_first [OF sp] obtain rest where ip: "ip = s0 @ rest" by blast
  from v obtain c cs where s0: "s0 = c # cs" and "isDigit c"
    by (cases s0) (auto simp add: v4Seg_def)
  with ip show ?thesis by simp
qed

lemma isPrivateIP_exact:
  assumes "isIPv4 ip"
  shows "isPrivateIP v6 ip = firstFiveRanges (ipv4Value ip)"
proof -
  from assms obtain s0 s1 s2 s3 where sp: "splitOn CHR ''.'' ip = [s0, s1, s2, s3]"
    and v: "v4Seg s0" "v4Seg s1" "v4Seg s2" "v4Seg s3"
    by (rule isIPv4_octets)
  note n = v [THEN v4Seg_Number]
  from n have le: "decimal s0 \<le> 255" "decimal s1 \<le> 255" "decimal s2 \<le> 255" "decimal s3 \<le> 255"
    by simp_all
  from isIPv4_starts_with_digit [OF assms] have other:
    "ip \<noteq> ''::1''" "\<not> startsWith ip ''fc''" "\<not> startsWith ip ''fd''"
    by (auto simp add: startsWith_def isDigit_def)
  have "isPrivateIP v6 ip =
      (decimal s0 = 127 \<or> decimal s0 = 10 \<or>
       (decimal s0 = 172 \<and> 16 \<le> decimal s1 \<and> decimal s1 \<le> 31) \<or>
       (decimal s0 = 192 \<and> decimal s1 = 168) \<or> (decimal s0 = 169 \<and> decimal s1 = 254))"
    using n assms other by (auto simp add: isPrivateIP_def isIP_def sp)
  also have "\<dots> = firstFiveRanges (ipv4Value ip)"
    using le by (simp add: firstFiveRanges_def ipv4Value_octets [OF sp] cidr_octets)
  finally show ?thesis .
qed

lemma list_ex_not_all: "list_ex P xs = (\<not> list_all (\<lambda>x. \<not> P x) xs)"
  by (induction xs) auto

text \<open>
  C2 (as amended). For a host name that is not an IP literal, the classifier
  \<^verbatim>\<open>isPrivateIp\<close> of utils.ts resolves it and answers Private exactly when the name is
  empty or \<^verbatim>\<open>localhost\<close>, the lookup fails, it returns no record, or one of the resolved
  addresses is private; it answers Public only when the lookup returned at least one
  address and none of them is private. The URL validation of the handler does not use
  this classifier: its own \<^verbatim>\<open>isPrivateIP\<close> resolves nothing and answers Public for every
  host name that is not an IP literal, so \<^verbatim>\<open>validateUrl\<close> accepts every http(s) URL
  with such a host.
\<close>

theorem dns_classification:
  "(isIP v6 (stripBrackets h) = 0 \<longrightarrow>
      isPrivateIp v6 dns h =
        (h = [] \<or> toLowerCase (stripBrackets h) = ''localhost'' \<or>
         (case dns (stripBrackets h) of
            None \<Rightarrow> True
          | Some results \<Rightarrow> results = [] \<or> list_ex (privateAddress v6) results))) \<and>
   (isIP v6 (stripBrackets h) = 0 \<and> \<not> isPrivateIp v6 dns h \<longrightarrow>
      (\<exists>results. dns (stripBrackets h) = Some results \<and> results \<noteq> [] \<and>
         list_all (\<lambda>a. \<not> privateAddress v6 a) results)) \<and>
   (isIP v6 h = 0 \<longrightarrow> \<not> isPrivateIP v6 h) \<and>
   (\<forall>url. newURL E s = Inr url \<and> (protocol url = ''http:'' \<or> protocol url = ''https:'') \<and>
       isIP (isIPv6 E) (hostname url) = 0 \<longrightarrow> validateUrl E s = Inr url)"
proof (intro conjI allI impI)
  assume "isIP v6 (stripBrackets h) = 0"
  then show "isPrivateIp v6 dns h =
        (h = [] \<or> toLowerCase (stripBrackets h) = ''localhost'' \<or>
         (case dns (stripBrackets h) of
            None \<Rightarrow> True
          | Some results \<Rightarrow> results = [] \<or> list_ex (privateAddress v6) results))"
    by (auto simp add: isPrivateIp_def Let_def split: option.splits)
next
  assume "isIP v6 (stripBrackets h) = 0 \<and> \<not> isPrivateIp v6 dns h"
  then show "\<exists>results. dns (stripBrackets h) = Some results \<and> results \<noteq> [] \<and>
         list_all (\<lambda>a. \<not> privateAddress v6 a) results"
    by (auto simp add: isPrivateIp_def Let_def list_ex_not_all split: option.splits if_splits)
next
  assume "isIP v6 h = 0"
  then show "\<not> isPrivateIP v6 h"
    by (simp add: isPrivateIP_def)
next
  fix url
  assume "newURL E s = Inr url \<and> (protocol url = ''http:'' \<or> protocol url = ''https:'') \<and>
       isIP (isIPv6 E) (hostname url) = 0"
  then show "validateUrl E s = Inr url"
    by (auto simp add: validateUrl_def isPrivateIP_def)
qed

theorem dns_classification_witness:
  "isIP demoIPv6 (stripBrackets ''intranet.corp'') = 0 \<and>
   isPrivateIp demoIPv6 demoDns ''intranet.corp'' \<and>
   isIP demoIPv6 (stripBrackets ''shop.example'') = 0 \<and>
   \<not> isPrivateIp demoIPv6 demoDns ''shop.example'' \<and>
   isPrivateIp demoIPv6 demoDns ''nowhere.invalid'' \<and>
   \<not> isPrivateIP demoIPv6 ''intranet.corp'' \<and>
   validateUrl (demoEnv toLoopback) ''http://shop.example/item'' = Inr shopItem"
proof -
  have a: "isIP demoIPv6 (stripBrackets ''intranet.corp'') = 0"
    and b: "isIP demoIPv6 (stripBrackets ''shop.example'') = 0"
    and c: "isIP demoIPv6 (stripBrackets ''nowhere.invalid'') = 0"
    and d: "isIP demoIPv6 ''intranet.corp'' = 0"
    by code_simp+
  have e: "newURL (demoEnv toLoopback) ''http://shop.example/item'' = Inr shopItem"
    and f: "protocol shopItem = ''http:''"
    and g: "isIP (isIPv6 (demoEnv toLoopback)) (hostname shopItem) = 0"
    by code_simp+
  have i: "stripBrackets ''intranet.corp'' = ''intranet.corp''"
    and j: "stripBrackets ''shop.example'' = ''shop.example''"
    and k: "stripBrackets ''nowhere.invalid'' = ''nowhere.invalid''"
    by code_simp+
  have l: "demoDns ''intranet.corp'' = Some [''10.0.0.5'']"
    and m: "demoDns ''shop.example'' = Some [''93.184.216.34'']"
    and n: "demoDns ''nowhere.invalid'' = None"
    by code_simp+
  have o: "privateAddress demoIPv6 ''10.0.0.5''" and p: "\<not> privateAddress demoIPv6 ''93.184.216.34''"
    and q: "toLowerCase ''shop.example'' \<noteq> ''localhost''"
    by code_simp+
  from dns_classification [of demoIPv6 "''intranet.corp''" demoDns "demoEnv toLoopback"
      "''http://shop.example/item''"] a d e f g i l o
  have r1: "isPrivateIp demoIPv6 demoDns ''intranet.corp'' \<and> \<not> isPrivateIP demoIPv6 ''intranet.corp'' \<and>
      validateUrl (demoEnv toLoopback) ''http://shop.example/item'' = Inr shopItem"
    by simp
  from dns_classification [of demoIPv6 "''shop.example''" demoDns] b j m p q
  have r2: "\<not> isPrivateIp demoIPv6 demoDns ''shop.example''"
    by simp
  from dns_classification [of demoIPv6 "''nowhere.invalid''" demoDns] c k n
  have r3: "isPrivateIp demoIPv6 demoDns ''nowhere.invalid''"
    by simp
  from a b r1 r2 r3 show ?thesis by simp
qed

text \<open>
  C2 as stated fails: \<^verbatim>\<open>intranet.corp\<close> resolves to the private address 10.0.0.5 and the
  lookup of \<^verbatim>\<open>nowhere.invalid\<close> fails, yet the classification used by URL validation
  answers Public for both and \<^verbatim>\<open>validateUrl\<close> accepts both URLs.
\<close>

theorem validator_skips_dns_counterexample:
  "isIP demoIPv6 ''intranet.corp'' = 0 \<and>
   demoDns ''intranet.corp'' = Some [''10.0.0.5''] \<and>
   privateAddress demoIPv6 ''10.0.0.5'' \<and>
   \<not> isPrivateIP demoIPv6 ''intranet.corp'' \<and>
   validateUrl (demoEnv toLoopback) ''http://intranet.corp/'' =
     Inr \<lparr>protocol = ''http:'', username = [], password = [], hostname = ''intranet.corp'',
          port = [], pathname = ''/'', searchParams = [], hash = []\<rparr> \<and>
   isIP demoIPv6 ''nowhere.invalid'' = 0 \<and>
   demoDns ''nowhere.invalid'' = None \<and>
   \<not> isPrivateIP demoIPv6 ''nowhere.invalid'' \<and>
   validateUrl (demoEnv toLoopback) ''http://nowhere.invalid/'' =
     Inr \<lparr>protocol = ''http:'', username = [], password = [], hostname = ''nowhere.invalid'',
          port = [], pathname = ''/'', searchParams = [], hash = []\<rparr>"
  by code_simp

text \<open>
  C6. \<^verbatim>\<open>isPrivateIPv4\<close> of utils.ts classifies 0.0.0.0, 224.0.0.1 and 255.255.255.255
  (in 0.0.0.0/8, in 224.0.0.0/4, above 240.0.0.0) Private, as the claim says; the
  classifier \<^verbatim>\<open>isPrivateIP\<close> that the handler's validation uses classifies the three
  Public, and \<^verbatim>\<open>validateUrl\<close> accepts \<^verbatim>\<open>http://0.0.0.0/\<close>.
\<close>

theorem handler_classifier_misses_ranges:
  "isIPv4 ''0.0.0.0'' \<and> isPrivateIPv4 ''0.0.0.0'' \<and> \<not> isPrivateIP demoIPv6 ''0.0.0.0'' \<and>
   isIPv4 ''224.0.0.1'' \<and> isPrivateIPv4 ''224.0.0.1'' \<and> \<not> isPrivateIP demoIPv6 ''224.0.0.1'' \<and>
   isIPv4 ''255.255.255.255'' \<and> isPrivateIPv4 ''255.255.255.255'' \<and>
   \<not> isPrivateIP demoIPv6 ''255.255.255.255'' \<and>
   isPrivateIp demoIPv6 demoDns ''0.0.0.0'' \<and>
   validateUrl (demoEnv toLoopback) ''http://0.0.0.0/'' =
     Inr \<lparr>protocol = ''http:'', username = [], password = [], hostname = ''0.0.0.0'',
          port = [], pathname = ''/'', searchParams = [], hash = []\<rparr>"
  by code_simp

theorem handler_classifier_misses_ranges_witness:
  "isPrivateIPv4 ''0.0.0.0'' \<and> \<not> isPrivateIP demoIPv6 ''0.0.0.0''"
  using handler_classifier_misses_ranges by simp

section \<open>Redirect targets\<close>

text \<open>
  C1. A redirect target is not validated: \<^verbatim>\<open>http://shop.example/item\<close> passes the
  validator and redirects to \<^verbatim>\<open>http://127.0.0.1/admin\<close>, which the validator rejects
  with \<^verbatim>\<open>Private IP addresses are not allowed\<close> when asked; the loop requests it all the
  same and the call succeeds with the page served there.
\<close>

theorem redirect_target_not_revalidated:
  "fetchPage (demoEnv toLoopback) ''http://shop.example/item'' =
     ([(''http://shop.example/item'', 20), (''http://127.0.0.1/admin'', 20)],
      Inr (''<title>internal</title>'', ''http://shop.example/item'')) \<and>
   validateUrl (demoEnv toLoopback) ''http://127.0.0.1/admin'' =
     Inl (Exn ''Error'' ''Private IP addresses are not allowed'')"
proof -
  have v: "validateUrl (demoEnv toLoopback) ''http://shop.example/item'' = Inr shopItem"
    by code_simp
  have p: "validateUrl (demoEnv toLoopback) ''http://127.0.0.1/admin'' =
     Inl (Exn ''Error'' ''Private IP addresses are not allowed'')"
    by code_simp
  have run: "fetchLoop (demoEnv toLoopback) ''http://shop.example/item'' 0 =
     ([(''http://shop.example/item'', 20), (''http://127.0.0.1/admin'', 20)],
      Html ''<title>internal</title>'')"
    by (simp add: fetchLoop.simps demoEnv_def toLoopback_def redirectTo_def htmlPage_def
        redirectTarget_def MAX_REDIRECTS_def demoNewURLBase_def demoNewURL_def demoToString_def
        startsWith_def demoQuery_def readPage_def ok_def MAX_SIZE_def)
  have s: "urlToString (demoEnv toLoopback) shopItem = ''http://shop.example/item''"
    by code_simp
  from v run s p show ?thesis
    by (simp add: fetchPage_valid)
qed

section \<open>The fallback chains of the extraction\<close>

lemma priceScan_keeps:
  "title (priceScan E t ps r) = title r \<and> image' (priceScan E t ps r) = image' r \<and>
   sourceUrl (priceScan E t ps r) = sourceUrl r"
  by (induction ps) (auto split: option.splits)

lemma priceFallback_keeps:
  "title (priceFallback E doc r) = title r \<and> image' (priceFallback E doc r) = image' r \<and>
   sourceUrl (priceFallback E doc r) = sourceUrl r"
  by (simp add: priceFallback_def priceScan_keeps del: priceScan.simps)

lemma steps_title:
  "title (noteSourceUrl src r) = title r"
  "title (ogTitle doc r) = ogLookup doc ''og:title''"
  "title (ogImage doc r) = title r"
  "title (ogSiteName doc r) = title r"
  "title (ogPrice doc r) = title r"
  "title (twitterTitle doc r) =
     (if truthy (title r) then title r else twitterLookup doc ''twitter:title'')"
  "title (twitterImage doc r) = title r"
  "title (twitterSite doc r) = title r"
  "title (titleFallback doc r) =
     (if truthy (title r) then title r
      else Some (if trim (textOf (byTag ''title'' doc)) \<noteq> []
                 then trim (textOf (byTag ''title'' doc))
                 else trim (textOf (take 1 (byTag ''h1'' doc)))))"
  "title (imageFallback doc r) = title r"
  "title (hostFallback E src r) = title r"
  "title (priceFallback E doc r) = title r"
  by (simp_all add: noteSourceUrl_def ogTitle_def ogImage_def ogSiteName_def ogPrice_def
      twitterTitle_def twitterImage_def twitterSite_def titleFallback_def imageFallback_def
      hostFallback_def priceFallback_keeps ogLookup_def twitterLookup_def
      split: sum.splits)

lemma steps_image:
  "image' (noteSourceUrl src r) = image' r"
  "image' (ogTitle doc r) = image' r"
  "image' (ogImage doc r) = ogLookup doc ''og:image''"
  "image' (ogSiteName doc r) = image' r"
  "image' (ogPrice doc r) = image' r"
  "image' (twitterTitle doc r) = image' r"
  "image' (twitterImage doc r) =
     (if truthy (image' r) then image' r else twitterLookup doc ''twitter:image'')"
  "image' (twitterSite doc r) = image' r"
  "image' (titleFallback doc r) = image' r"
  "image' (imageFallback doc r) =
     (if \<not> truthy (image' r) \<and> truthy (attr (take 1 (havingAttr ''img'' ''src'' doc)) ''src'')
      then attr (take 1 (havingAttr ''img'' ''src'' doc)) ''src'' else image' r)"
  "image' (hostFallback E src r) = image' r"
  "image' (priceFallback E doc r) = image' r"
  by (simp_all add: noteSourceUrl_def ogTitle_def ogImage_def ogSiteName_def ogPrice_def
      twitterTitle_def twitterImage_def twitterSite_def titleFallback_def imageFallback_def
      hostFallback_def priceFallback_keeps ogLookup_def twitterLookup_def
      split: sum.splits)

lemma steps_sourceUrl:
  "sourceUrl (noteSourceUrl src r) = (if truthy src then src else sourceUrl r)"
  "sourceUrl (ogTitle doc r) = sourceUrl r"
  "sourceUrl (ogImage doc r) = sourceUrl r"
  "sourceUrl (ogSiteName doc r) = sourceUrl r"
  "sourceUrl (ogPrice doc r) = sourceUrl r"
  "sourceUrl (twitterTitle doc r) = sourceUrl r"
  "sourceUrl (twitterImage doc r) = sourceUrl r"
  "sourceUrl (twitterSite doc r) = sourceUrl r"
  "sourceUrl (titleFallback doc r) = sourceUrl r"
  "sourceUrl (imageFallback doc r) = sourceUrl r"
  "sourceUrl (hostFallback E src r) = sourceUrl r"
  "sourceUrl (priceFallback E doc r) = sourceUrl r"
  by (simp_all add: noteSourceUrl_def ogTitle_def ogImage_def ogSiteName_def ogPrice_def
      twitterTitle_def twitterImage_def twitterSite_def titleFallback_def imageFallback_def
      hostFallback_def priceFallback_keeps
      split: sum.splits)

lemma extractFrom_title:
  "title (extractFrom E doc src) =
     (if truthy (ogLookup doc ''og:title'') then ogLookup doc ''og:title''
      else if truthy (twitterLookup doc ''twitter:title'') then twitterLookup doc ''twitter:title''
      else Some (if trim (textOf (byTag ''title'' doc)) \<noteq> []
                 then trim (textOf (byTag ''title'' doc))
                 else trim (textOf (take 1 (byTag ''h1'' doc)))))"
  by (simp add: extractFrom_def Let_def steps_title)

lemma extractFrom_image:
  "image' (extractFrom E doc src) =
     (if truthy (ogLookup doc ''og:image'') then ogLookup doc ''og:image''
      else if truthy (twitterLookup doc ''twitter:image'') then twitterLookup doc ''twitter:image''
      else if truthy (attr (take 1 (havingAttr ''img'' ''src'' doc)) ''src'')
        then attr (take 1 (havingAttr ''img'' ''src'' doc)) ''src''
      else twitterLookup doc ''twitter:image'')"
  by (simp add: extractFrom_def Let_def steps_image)

lemma extractFrom_sourceUrl:
  "sourceUrl (extractFrom E doc src) = (if truthy src then src else None)"
  by (simp add: extractFrom_def Let_def steps_sourceUrl)

lemma extractMeta_single:
  "extractMeta doc [name] =
     firstHit [metaContent (take 1 (byAttr ''meta'' ''name'' name doc)),
               metaContent (take 1 (byAttr ''meta'' ''property'' name doc)),
               metaContent (take 1 (byAttr ''meta'' ''itemprop'' name doc)),
               metaContent (take 1 (byAttr ''meta'' ''http-equiv'' name doc))]"
  by (simp add: extractMeta_def metaForms_def)

text \<open>
  C7 (as amended). For every HTML input, the title is the \<^verbatim>\<open>content\<close> of the first
  \<^verbatim>\<open>meta\<close> element whose \<^verbatim>\<open>property\<close> is \<^verbatim>\<open>og:title\<close> if that is non-empty, else the
  \<^verbatim>\<open>content\<close> of the first \<^verbatim>\<open>meta\<close> element whose \<^verbatim>\<open>name\<close> or \<^verbatim>\<open>property\<close> is
  \<^verbatim>\<open>twitter:title\<close> if that is non-empty, else the trimmed text of the \<^verbatim>\<open>title\<close> elements
  if non-empty, else the trimmed text of the first \<^verbatim>\<open>h1\<close>. The image is found the same
  way from \<^verbatim>\<open>og:image\<close>, then \<^verbatim>\<open>twitter:image\<close>, then the \<^verbatim>\<open>src\<close> of the first
  \<^verbatim>\<open>img\<close> that has one. The lookup through the \<^verbatim>\<open>name\<close>, \<^verbatim>\<open>property\<close>, \<^verbatim>\<open>itemprop\<close>
  and \<^verbatim>\<open>http-equiv\<close> forms, in that order, is what the separate helper \<^verbatim>\<open>extractMeta\<close>
  does for a candidate name; the extraction does not call it.
\<close>

theorem extraction_fallback_order:
  "title (extractMetadata E html src) =
     (if truthy (ogLookup (load E html) ''og:title'') then ogLookup (load E html) ''og:title''
      else if truthy (twitterLookup (load E html) ''twitter:title'')
        then twitterLookup (load E html) ''twitter:title''
      else Some (if trim (textOf (byTag ''title'' (load E html))) \<noteq> []
                 then trim (textOf (byTag ''title'' (load E html)))
                 else trim (textOf (take 1 (byTag ''h1'' (load E html)))))) \<and>
   image' (extractMetadata E html src) =
     (if truthy (ogLookup (load E html) ''og:image'') then ogLookup (load E html) ''og:image''
      else if truthy (twitterLookup (load E html) ''twitter:image'')
        then twitterLookup (load E html) ''twitter:image''
      else if truthy (attr (take 1 (havingAttr ''img'' ''src'' (load E html))) ''src'')
        then attr (take 1 (havingAttr ''img'' ''src'' (load E html))) ''src''
      else twitterLookup (load E html) ''twitter:image'') \<and>
   extractMeta doc [name] =
     firstHit [metaContent (take 1 (byAttr ''meta'' ''name'' name doc)),
               metaContent (take 1 (byAttr ''meta'' ''property'' name doc)),
               metaContent (take 1 (byAttr ''meta'' ''itemprop'' name doc)),
               metaContent (take 1 (byAttr ''meta'' ''http-equiv'' name doc))]"
  by (simp only: extractMetadata_def extractFrom_title extractFrom_image extractMeta_single)

text \<open>
  C7 as stated fails: on a page whose OpenGraph title is given in the \<^verbatim>\<open>name\<close> form and
  whose OpenGraph image in the \<^verbatim>\<open>itemprop\<close> form, the four-form lookup finds
  \<^verbatim>\<open>Shown\<close> and \<^verbatim>\<open>a.png\<close>, while the extraction answers with the \<^verbatim>\<open>title\<close> element and
  the first \<^verbatim>\<open>img\<close>.
\<close>

theorem extraction_lookup_counterexample:
  "title (extractFrom (demoEnv toLoopback) namedOgPage None) = Some ''Fallback'' \<and>
   specTitle namedOgPage = Some ''Shown'' \<and>
   image' (extractFrom (demoEnv toLoopback) namedOgPage None) = Some ''b.png'' \<and>
   specImage namedOgPage = Some ''a.png''"
  by code_simp

section \<open>The source URL of a preview\<close>

lemma fetchPage_success:
  "snd (fetchPage E u) = Inr (html, src) \<Longrightarrow>
     \<exists>v. validateUrl E u = Inr v \<and> src = urlToString E v"
proof (cases "validateUrl E u")
  case (Inl e)
  assume "snd (fetchPage E u) = Inr (html, src)"
  with Inl show ?thesis by (simp add: fetchPage_invalid)
next
  case (Inr v)
  assume "snd (fetchPage E u) = Inr (html, src)"
  with Inr show ?thesis
    by (auto simp add: fetchPage_valid split: attempt.splits)
qed

text \<open>
  C8 (as amended). On every successful fetch, whether or not redirects were followed,
  the \<^verbatim>\<open>sourceUrl\<close> of the preview is the serialisation (\<^verbatim>\<open>toString()\<close>) of the URL
  that was requested, as \<^verbatim>\<open>validateUrl\<close> parsed it; it is not passed through
  \<^verbatim>\<open>normalizeUrl\<close>.
\<close>

theorem sourceUrl_is_requested_url:
  "\<not> truthy raw_html \<and> previewHandler E url raw_html = Json result \<longrightarrow>
     (\<exists>v. validateUrl E (orEmpty url) = Inr v \<and>
          sourceUrl result = (if urlToString E v = [] then None else Some (urlToString E v)))"
proof
  assume h: "\<not> truthy raw_html \<and> previewHandler E url raw_html = Json result"
  then obtain html src where
    page: "snd (fetchPage E (orEmpty url)) = Inr (html, src)" and
    res: "result = extractMetadata E html (Some src)"
    by (auto simp add: previewHandler_def split: if_splits sum.splits)
  from fetchPage_success [OF page] obtain v where
    v: "validateUrl E (orEmpty url) = Inr v" and src: "src = urlToString E v"
    by blast
  from res src have "sourceUrl result = (if urlToString E v = [] then None else Some (urlToString E v))"
    by (simp add: extractMetadata_def extractFrom_sourceUrl)
  with v show "\<exists>v. validateUrl E (orEmpty url) = Inr v \<and>
          sourceUrl result = (if urlToString E v = [] then None else Some (urlToString E v))"
    by blast
qed

theorem sourceUrl_is_requested_url_witness:
  "previewHandler (demoEnv slowRedirect) (Some ''http://shop.example/item'') None =
     Json \<lparr>title = Some [], image' = None, price = None, currency = None,
            siteName = Some ''shop.example'', sourceUrl = Some ''http://shop.example/item''\<rparr> \<and>
   validateUrl (demoEnv slowRedirect) ''http://shop.example/item'' = Inr shopItem \<and>
   urlToString (demoEnv slowRedirect) shopItem = ''http://shop.example/item''"
proof -
  let ?E = "demoEnv slowRedirect"
  let ?u = "''http://shop.example/item''"
  have v: "validateUrl ?E ?u = Inr shopItem"
    by code_simp
  have s: "urlToString ?E shopItem = ?u"
    by code_simp
  have run: "fetchLoop ?E ?u 0 =
     ([(?u, 4000), (''http://shop.example/final'', 4000)], Html ''<title>final</title>'')"
    by (simp add: fetchLoop.simps demoEnv_def slowRedirect_def redirectTo_def htmlPage_def
        redirectTarget_def MAX_REDIRECTS_def demoNewURLBase_def demoNewURL_def demoToString_def
        startsWith_def demoQuery_def readPage_def ok_def MAX_SIZE_def)
  have m: "extractMetadata ?E ''<title>final</title>'' (Some ?u) =
     \<lparr>title = Some [], image' = None, price = None, currency = None,
      siteName = Some ''shop.example'', sourceUrl = Some ?u\<rparr>"
    by code_simp
  have page: "fetchPage ?E ?u =
     ([(?u, 4000), (''http://shop.example/final'', 4000)], Inr (''<title>final</title>'', ?u))"
    by (simp add: fetchPage_valid [OF v] s run)
  from page m have r: "previewHandler ?E (Some ?u) None =
     Json \<lparr>title = Some [], image' = None, price = None, currency = None,
            siteName = Some ''shop.example'', sourceUrl = Some ?u\<rparr>"
    by (simp add: previewHandler_def)
  from sourceUrl_is_requested_url [of None ?E "Some ?u"
      "\<lparr>title = Some [], image' = None, price = None, currency = None,
            siteName = Some ''shop.example'', sourceUrl = Some ?u\<rparr>"] r v s
  show ?thesis by simp
qed

lemma slow_run:
  "fetchLoop (demoEnv slowRedirect) ''http://shop.example/item?utm_source=x#top'' 0 =
     ([(''http://shop.example/item?utm_source=x#top'', 4000), (''http://shop.example/final'', 4000)],
      Html ''<title>final</title>'')"
  by (simp add: fetchLoop.simps demoEnv_def slowRedirect_def redirectTo_def htmlPage_def
        redirectTarget_def MAX_REDIRECTS_def demoNewURLBase_def demoNewURL_def demoToString_def
        startsWith_def demoQuery_def readPage_def ok_def MAX_SIZE_def)

text \<open>
  C8 as stated fails: the request for \<^verbatim>\<open>http://shop.example/item?utm_source=x#top\<close> is
  redirected to \<^verbatim>\<open>http://shop.example/final\<close>, where the page is served; the preview's
  \<^verbatim>\<open>sourceUrl\<close> is the requested URL, tracking parameter and fragment included, not the
  normalised final URL.
\<close>

theorem sourceUrl_final_counterexample:
  "previewHandler (demoEnv slowRedirect) (Some ''http://shop.example/item?utm_source=x#top'') None =
     Json \<lparr>title = Some [], image' = None, price = None, currency = None,
            siteName = Some ''shop.example'',
            sourceUrl = Some ''http://shop.example/item?utm_source=x#top''\<rparr> \<and>
   fst (fetchPage (demoEnv slowRedirect) ''http://shop.example/item?utm_source=x#top'') =
     [(''http://shop.example/item?utm_source=x#top'', 4000), (''http://shop.example/final'', 4000)] \<and>
   normalizeUrl (demoEnv slowRedirect) ''http://shop.example/final'' = ''http://shop.example/final'' \<and>
   normalizeUrl (demoEnv slowRedirect) ''http://shop.example/item?utm_source=x#top'' =
     ''http://shop.example/item''"
proof -
  let ?E = "demoEnv slowRedirect"
  let ?u = "''http://shop.example/item?utm_source=x#top''"
  let ?v = "shopItem\<lparr>searchParams := [(''utm_source'', ''x'')], hash := ''#top''\<rparr>"
  have v: "validateUrl ?E ?u = Inr ?v"
    by code_simp
  have s: "urlToString ?E ?v = ?u"
    by code_simp
  have page: "fetchPage ?E ?u =
     ([(?u, 4000), (''http://shop.example/final'', 4000)], Inr (''<title>final</title>'', ?u))"
    by (simp add: fetchPage_valid [OF v] s slow_run)
  have m: "extractMetadata ?E ''<title>final</title>'' (Some ?u) =
     \<lparr>title = Some [], image' = None, price = None, currency = None,
      siteName = Some ''shop.example'', sourceUrl = Some ?u\<rparr>"
    by code_simp
  have n: "normalizeUrl ?E ''http://shop.example/final'' = ''http://shop.example/final''"
    "normalizeUrl ?E ?u = ''http://shop.example/item''"
    by code_simp+
  from page m n show ?thesis
    by (simp add: previewHandler_def)
qed

section \<open>Normalising twice\<close>

text \<open>
  C10. \<^verbatim>\<open>normalizeUrl\<close> is not idempotent, on the server or in the app: of two
  neighbouring \<^verbatim>\<open>utm_\<close> parameters outside the fixed list, the loop that deletes while
  it iterates removes the first and skips the second, which a second call then
  removes.
\<close>

theorem normalizeUrl_not_idempotent:
  "normalizeUrl (demoEnv toLoopback) ''https://shop.example/item?utm_id=1&utm_source_platform=2''
     = ''https://shop.example/item?utm_source_platform=2'' \<and>
   normalizeUrl (demoEnv toLoopback)
     (normalizeUrl (demoEnv toLoopback) ''https://shop.example/item?utm_id=1&utm_source_platform=2'')
     = ''https://shop.example/item'' \<and>
   normalizeUrlApp (demoEnv toLoopback) ''https://shop.example/item?utm_id=1&utm_source_platform=2''
     = ''https://shop.example/item?utm_source_platform=2'' \<and>
   normalizeUrlApp (demoEnv toLoopback)
     (normalizeUrlApp (demoEnv toLoopback) ''https://shop.example/item?utm_id=1&utm_source_platform=2'')
     = ''https://shop.example/item''"
  by code_simp

section \<open>The timer of a request\<close>

lemma instantly_fields:
  "net (instantly E) n u = (0, snd (net E n u))"
  "newURLBase (instantly E) = newURLBase E"
  "urlToString (instantly E) = urlToString E"
  "newURL (instantly E) = newURL E"
  "isIPv6 (instantly E) = isIPv6 E"
  by (simp_all add: instantly_def)

lemma validateUrl_instantly: "validateUrl (instantly E) url = validateUrl E url"
  by (simp add: validateUrl_def instantly_fields split: sum.splits)

lemma fetchLoop_latencies:
  "list_all (\<lambda>q. snd q \<le> 5000) (fst (fetchLoop E u n))"
proof (induction "MAX_REDIRECTS - n" arbitrary: n u)
  case 0
  have "follows E u n = None"
  proof (cases "follows E u n")
    case None
    then show ?thesis .
  next
    case (Some u')
    from follows_below_cap [OF this] 0 show ?thesis by simp
  qed
  then show ?case
    by (subst fetchLoop.simps)
       (auto simp add: follows_def split: prod.splits sum.splits option.splits if_splits)
next
  case (Suc k)
  show ?case
  proof (cases "follows E u n")
    case None
    then show ?thesis
      by (subst fetchLoop.simps)
         (auto simp add: follows_def split: prod.splits sum.splits option.splits if_splits)
  next
    case (Some u')
    from Suc.hyps(2) have k: "k = MAX_REDIRECTS - Suc n" by simp
    from Some have "fst (net E n u) < 5000"
      by (auto simp add: follows_def split: prod.splits sum.splits option.splits if_splits)
    with Suc.hyps(1) [OF k, of u'] show ?thesis
      by (simp add: fetchLoop_follow [OF Some])
  qed
qed

lemma waited_bound:
  "list_all (\<lambda>q. snd q \<le> (c::nat)) qs \<Longrightarrow> waited qs \<le> length qs * c"
  by (induction qs) (auto simp add: waited_def)

lemma fetchPage_waited: "waited (fst (fetchPage E url)) \<le> 4 * 5000"
proof (cases "validateUrl E url")
  case (Inl e)
  then show ?thesis by (simp add: fetchPage_invalid waited_def)
next
  case (Inr v)
  have "waited (fst (fetchLoop E (urlToString E v) 0))
      \<le> length (fst (fetchLoop E (urlToString E v) 0)) * 5000"
    by (rule waited_bound [OF fetchLoop_latencies])
  also have "\<dots> \<le> 4 * 5000"
    using fetchLoop_requests_bound [of E "urlToString E v" 0]
    by (simp add: MAX_REDIRECTS_def)
  finally show ?thesis using Inr by (simp add: fetchPage_valid)
qed


lemma catch_abort: "catchMessage abortError = ''Failed to fetch URL (timeout)''"
  by (simp add: catchMessage_def abortError_def)

lemma hops_step:
  "follows E u n = Some u' \<Longrightarrow> hops E u' (Suc n) k = Some uk \<Longrightarrow> hops E u n (Suc k) = Some uk"
  by simp

lemma withReadTimes_fields:
  "newURLBase (withReadTimes ts E) = newURLBase E"
  "urlToString (withReadTimes ts E) = urlToString E"
  "newURL (withReadTimes ts E) = newURL E"
  "isIPv6 (withReadTimes ts E) = isIPv6 E"
  by (simp_all add: withReadTimes_def)

lemma readPage_readTimes: "readPage (r\<lparr>readTimes := ts\<rparr>) = readPage r"
  by (simp add: readPage_def ok_def)

lemma redirectTarget_readTimes: "redirectTarget (r\<lparr>readTimes := ts\<rparr>) = redirectTarget r"
  by (simp add: redirectTarget_def)

lemma validateUrl_withReadTimes: "validateUrl (withReadTimes ts E) url = validateUrl E url"
  by (simp add: validateUrl_def withReadTimes_fields split: sum.splits)

lemma fetchLoop_withReadTimes: "fetchLoop (withReadTimes ts E) u n = fetchLoop E u n"
proof (induction "MAX_REDIRECTS - n" arbitrary: n u)
  case 0
  then have cap: "MAX_REDIRECTS \<le> n" by simp
  obtain l x where nu: "net E n u = (l, x)" by (cases "net E n u")
  show ?case
  proof (cases x)
    case (Inl e)
    with nu show ?thesis
      by (subst fetchLoop.simps, subst (2) fetchLoop.simps) (simp add: withReadTimes_def)
  next
    case (Inr r)
    with nu cap show ?thesis
      by (subst fetchLoop.simps, subst (2) fetchLoop.simps)
         (simp add: withReadTimes_def readPage_readTimes redirectTarget_readTimes
           split: option.splits)
  qed
next
  case (Suc k)
  then have k: "k = MAX_REDIRECTS - Suc n" by simp
  note IH = Suc(1) [OF k]
  obtain l x where nu: "net E n u = (l, x)" by (cases "net E n u")
  show ?case
  proof (cases x)
    case (Inl e)
    with nu show ?thesis
      by (subst fetchLoop.simps, subst (2) fetchLoop.simps) (simp add: withReadTimes_def)
  next
    case (Inr r)
    with nu IH show ?thesis
      by (subst fetchLoop.simps, subst (2) fetchLoop.simps)
         (simp add: withReadTimes_def readPage_readTimes redirectTarget_readTimes
           split: option.splits sum.splits)
  qed
qed

lemma fetchPage_withReadTimes: "fetchPage (withReadTimes ts E) url = fetchPage E url"
proof (cases "validateUrl E url")
  case (Inl e)
  then show ?thesis
    by (simp add: fetchPage_invalid validateUrl_withReadTimes)
next
  case (Inr v)
  then show ?thesis
    by (simp add: fetchPage_valid validateUrl_withReadTimes fetchLoop_withReadTimes
        withReadTimes_fields split: attempt.splits)
qed

lemma fetchLoop_quick:
  "(\<And>k uk. hops E u n k = Some uk \<Longrightarrow> fst (net E (n + k) uk) < 5000) \<Longrightarrow>
     snd (fetchLoop (instantly E) u n) = snd (fetchLoop E u n) \<and>
     list_all (\<lambda>q. snd q < 5000) (fst (fetchLoop E u n))"
proof (induction "MAX_REDIRECTS - n" arbitrary: n u)
  case 0
  obtain l x where nu: "net E n u = (l, x)" by (cases "net E n u")
  from 0(2) [of 0 u] nu have l: "l < 5000" by simp
  from 0(1) have cap: "MAX_REDIRECTS \<le> n" by simp
  show ?case
  proof (cases x)
    case (Inl e)
    with nu l show ?thesis
      by (simp add: fetchLoop_rejected [of E n u l e]
          fetchLoop_rejected [of "instantly E" n u 0 e] instantly_fields)
  next
    case (Inr r)
    show ?thesis
    proof (cases "redirectTarget r")
      case None
      with nu l Inr show ?thesis
        by (simp add: fetchLoop_page [of E n u l r]
            fetchLoop_page [of "instantly E" n u 0 r] instantly_fields)
    next
      case (Some loc)
      with nu l Inr cap show ?thesis
        by (simp add: fetchLoop_cap [of E n u l r loc]
            fetchLoop_cap [of "instantly E" n u 0 r loc] instantly_fields)
    qed
  qed
next
  case (Suc k)
  obtain l x where nu: "net E n u = (l, x)" by (cases "net E n u")
  from Suc(3) [of 0 u] nu have l: "l < 5000" by simp
  from Suc(2) have below: "n < MAX_REDIRECTS" by simp
  show ?case
  proof (cases x)
    case (Inl e)
    with nu l show ?thesis
      by (simp add: fetchLoop_rejected [of E n u l e]
          fetchLoop_rejected [of "instantly E" n u 0 e] instantly_fields)
  next
    case (Inr r)
    show ?thesis
    proof (cases "redirectTarget r")
      case None
      with nu l Inr show ?thesis
        by (simp add: fetchLoop_page [of E n u l r]
            fetchLoop_page [of "instantly E" n u 0 r] instantly_fields)
    next
      case (Some loc)
      show ?thesis
      proof (cases "newURLBase E loc u")
        case (Inl e)
        with nu l Inr Some below show ?thesis
          by (simp add: fetchLoop_unresolved [of E n u l r loc e]
              fetchLoop_unresolved [of "instantly E" n u 0 r loc e] instantly_fields)
      next
        case (Inr u')
        with nu l \<open>x = Inr r\<close> Some below
        have f: "follows E u n = Some (urlToString E u')"
          and g: "follows (instantly E) u n = Some (urlToString E u')"
          by (simp_all add: follows_def instantly_fields)
        from Suc(2) have k: "k = MAX_REDIRECTS - Suc n" by simp
        have later: "fst (net E (Suc n + j) uj) < 5000"
          if "hops E (urlToString E u') (Suc n) j = Some uj" for j uj
          using Suc(3) [of "Suc j" uj] hops_step [OF f that] by simp
        from Suc(1) [OF k later, of "urlToString E u'"] nu l show ?thesis
          by (simp add: fetchLoop_follow [OF f] fetchLoop_follow [OF g])
      qed
    qed
  qed
qed

lemma readPage_messages:
  "readPage r = Respond400 msg \<Longrightarrow>
     msg = ''Failed to fetch URL'' \<or> msg = ''URL must return HTML content'' \<or>
     msg = ''Content size exceeds 512KB limit''"
  by (auto simp add: readPage_def split: if_splits option.splits body_result.splits)

lemma fetchLoop_no_abort:
  "(\<And>k uk. hops E u n k = Some uk \<Longrightarrow>
        fst (net E (n + k) uk) < 5000 \<and> \<not> networkAbort E (n + k) uk) \<Longrightarrow>
     (\<forall>e. snd (fetchLoop E u n) = Thrown e \<longrightarrow> exn_name e \<noteq> ''AbortError'') \<and>
     (\<forall>msg. snd (fetchLoop E u n) = Respond400 msg \<longrightarrow>
        msg = ''Failed to fetch URL'' \<or> msg = ''URL must return HTML content'' \<or>
        msg = ''Content size exceeds 512KB limit'')"
proof (induction "MAX_REDIRECTS - n" arbitrary: n u)
  case 0
  obtain l x where nu: "net E n u = (l, x)" by (cases "net E n u")
  from 0(2) [of 0 u] nu have l: "l < 5000" and na: "\<not> networkAbort E n u" by simp_all
  from 0(1) have cap: "MAX_REDIRECTS \<le> n" by simp
  show ?case
  proof (cases x)
    case (Inl e)
    with nu l na show ?thesis
      by (simp add: fetchLoop_rejected [of E n u l e] networkAbort_def)
  next
    case (Inr r)
    show ?thesis
    proof (cases "redirectTarget r")
      case None
      with nu l Inr na show ?thesis
        by (auto simp add: fetchLoop_page [of E n u l r] networkAbort_def
            dest: readPage_messages)
    next
      case (Some loc)
      with nu l Inr cap show ?thesis
        by (simp add: fetchLoop_cap [of E n u l r loc])
    qed
  qed
next
  case (Suc k)
  obtain l x where nu: "net E n u = (l, x)" by (cases "net E n u")
  from Suc(3) [of 0 u] nu have l: "l < 5000" and na: "\<not> networkAbort E n u" by simp_all
  from Suc(2) have below: "n < MAX_REDIRECTS" by simp
  show ?case
  proof (cases x)
    case (Inl e)
    with nu l na show ?thesis
      by (simp add: fetchLoop_rejected [of E n u l e] networkAbort_def)
  next
    case (Inr r)
    show ?thesis
    proof (cases "redirectTarget r")
      case None
      with nu l Inr na show ?thesis
        by (auto simp add: fetchLoop_page [of E n u l r] networkAbort_def
            dest: readPage_messages)
    next
      case (Some loc)
      show ?thesis
      proof (cases "newURLBase E loc u")
        case (Inl e)
        with nu l Inr Some below na show ?thesis
          by (simp add: fetchLoop_unresolved [of E n u l r loc e] networkAbort_def)
      next
        case (Inr u')
        with nu l \<open>x = Inr r\<close> Some below
        have f: "follows E u n = Some (urlToString E u')"
          by (simp add: follows_def)
        from Suc(2) have k: "k = MAX_REDIRECTS - Suc n" by simp
        have later: "fst (net E (Suc n + j) uj) < 5000 \<and> \<not> networkAbort E (Suc n + j) uj"
          if "hops E (urlToString E u') (Suc n) j = Some uj" for j uj
          using Suc(3) [of "Suc j" uj] hops_step [OF f that] by simp
        from Suc(1) [OF k later, of "urlToString E u'"] show ?thesis
          by (simp add: fetchLoop_follow [OF f])
      qed
    qed
  qed
qed

lemma catch_not_timeout:
  "exn_name e \<noteq> ''AbortError'' \<Longrightarrow> catchMessage e \<noteq> ''Failed to fetch URL (timeout)''"
proof -
  assume n: "exn_name e \<noteq> ''AbortError''"
  have a: "\<not> str_includes ''Failed to fetch URL (timeout)'' ''Private IP''"
    and b: "\<not> str_includes ''Failed to fetch URL (timeout)'' ''protocols''"
    by code_simp+
  show ?thesis
  proof
    assume eq: "catchMessage e = ''Failed to fetch URL (timeout)''"
    show False
    proof (cases "str_includes (exn_message e) ''Private IP'' \<or>
        str_includes (exn_message e) ''protocols''")
      case True
      with n eq have "exn_message e = ''Failed to fetch URL (timeout)''"
        by (simp add: catchMessage_def split: if_splits)
      with True a b show False by simp
    next
      case False
      with n eq show False by (simp add: catchMessage_def)
    qed
  qed
qed


lemma catch_named_abort:
  "exn_name e = ''AbortError'' \<Longrightarrow> catchMessage e = ''Failed to fetch URL (timeout)''"
  by (simp add: catchMessage_def)

lemma fetchLoop_abort:
  "fst (net E n u) < 5000 \<Longrightarrow> networkAbort E n u \<Longrightarrow>
     \<exists>e. fetchLoop E u n = ([(u, fst (net E n u))], Thrown e) \<and> exn_name e = ''AbortError''"
  by (subst fetchLoop.simps)
     (auto simp add: networkAbort_def
        split: prod.splits sum.splits option.splits if_splits attempt.splits)

lemma timeout_cause:
  assumes v: "validateUrl E url = Inr v"
  shows "(snd (fetchPage E url) = Inl ''Failed to fetch URL (timeout)'') =
         (\<exists>k uk. hops E (urlToString E v) 0 k = Some uk \<and>
            (5000 \<le> fst (net E k uk) \<or> networkAbort E k uk))"
proof
  assume t: "snd (fetchPage E url) = Inl ''Failed to fetch URL (timeout)''"
  show "\<exists>k uk. hops E (urlToString E v) 0 k = Some uk \<and>
            (5000 \<le> fst (net E k uk) \<or> networkAbort E k uk)"
  proof (rule ccontr)
    assume "\<not> ?thesis"
    then have quiet: "fst (net E (0 + k) uk) < 5000 \<and> \<not> networkAbort E (0 + k) uk"
      if "hops E (urlToString E v) 0 k = Some uk" for k uk
      using that by (auto simp add: not_le)
    note ends = fetchLoop_no_abort [of E "urlToString E v" 0, OF quiet]
    show False
    proof (cases "snd (fetchLoop E (urlToString E v) 0)")
      case (Respond400 msg)
      with ends have "msg = ''Failed to fetch URL'' \<or> msg = ''URL must return HTML content'' \<or>
          msg = ''Content size exceeds 512KB limit''"
        by simp
      with Respond400 t v show False
        by (auto simp add: fetchPage_valid)
    next
      case (Thrown e)
      with ends have "exn_name e \<noteq> ''AbortError''" by simp
      from catch_not_timeout [OF this] Thrown t v show False
        by (simp add: fetchPage_valid)
    next
      case (Html html)
      with t v show False by (simp add: fetchPage_valid)
    qed
  qed
next
  assume "\<exists>k uk. hops E (urlToString E v) 0 k = Some uk \<and>
            (5000 \<le> fst (net E k uk) \<or> networkAbort E k uk)"
  then obtain k uk where h: "hops E (urlToString E v) 0 k = Some uk"
    and c: "5000 \<le> fst (net E k uk) \<or> networkAbort E k uk"
    by blast
  show "snd (fetchPage E url) = Inl ''Failed to fetch URL (timeout)''"
  proof (cases "5000 \<le> fst (net E k uk)")
    case True
    then have "fetchLoop E uk k = ([(uk, 5000)], Thrown abortError)"
      by (simp add: fetchLoop_timeout)
    from fetchPage_hops [OF v h this] show ?thesis
      by (metis attempt.simps(11) catch_abort snd_conv)
  next
    case False
    with c have "fst (net E k uk) < 5000" and "networkAbort E k uk" by simp_all
    from fetchLoop_abort [OF this] obtain e
      where stop: "fetchLoop E uk k = ([(uk, fst (net E k uk))], Thrown e)"
        and name: "exn_name e = ''AbortError''"
      by blast
    from fetchPage_hops [OF v h stop] have "snd (fetchPage E url) = Inl (catchMessage e)"
      by (metis attempt.simps(11) snd_conv)
    with name show ?thesis by (simp add: catch_named_abort)
  qed
qed

lemma fetchPage_quick:
  assumes quick: "\<forall>v k uk. validateUrl E url = Inr v \<and> hops E (urlToString E v) 0 k = Some uk
            \<longrightarrow> fst (net E k uk) < 5000"
  shows "list_all (\<lambda>q. snd q < 5000) (fst (fetchPage E url)) \<and>
         snd (fetchPage E url) = snd (fetchPage (instantly E) url)"
proof (cases "validateUrl E url")
  case (Inl e)
  then show ?thesis
    by (simp add: fetchPage_invalid validateUrl_instantly)
next
  case (Inr v)
  with quick have "fst (net E (0 + k) uk) < 5000"
    if "hops E (urlToString E v) 0 k = Some uk" for k uk
    using that by simp
  from fetchLoop_quick [of E "urlToString E v" 0, OF this] Inr show ?thesis
    by (simp add: fetchPage_valid validateUrl_instantly instantly_fields split: attempt.splits)
qed

lemma slow_body_run:
  "fetchPage (demoEnv slowBody) ''http://shop.example/item'' =
     ([(''http://shop.example/item'', 20)],
      Inr (''<title>late</title>'', ''http://shop.example/item''))"
proof -
  let ?E = "demoEnv slowBody"
  let ?u = "''http://shop.example/item''"
  have v: "validateUrl ?E ?u = Inr shopItem"
    by code_simp
  have s: "urlToString ?E shopItem = ?u"
    by code_simp
  have run: "fetchLoop ?E ?u 0 = ([(?u, 20)], Html ''<title>late</title>'')"
    by (simp add: fetchLoop.simps demoEnv_def slowBody_def slowPage_def htmlPage_def
        redirectTarget_def MAX_REDIRECTS_def readPage_def ok_def MAX_SIZE_def startsWith_def)
  show ?thesis
    by (simp add: fetchPage_valid [OF v] s run)
qed

text \<open>
  C5 (as amended). Each request of a fetch, the first one and every redirect hop, runs
  under a 5-second timer of its own, armed before the request and cleared when its
  response arrives. For every call:
  \<^item> when the timer of a request of the call fires, the request is aborted and the call
    fails with the timeout error \<^verbatim>\<open>Failed to fetch URL (timeout)\<close>, that request being the
    last one made;
  \<^item> when each request the call makes settles within its own 5 seconds, no timer fires:
    every wait is below 5 seconds and the outcome of the call is what it would be if
    every request settled at once, however long the requests take together;
  \<^item> the waiting for the up to 4 requests of one call is bounded by 4 times 5 seconds,
    not by 5 seconds;
  \<^item> a call whose URL passes validation ends with the timeout error exactly when, at one
    of its requests, the timer fires or the world outside the handler supplies an
    exception named \<^verbatim>\<open>AbortError\<close> (\<open>networkAbort\<close>);
  \<^item> so a call whose requests each settle within their 5 seconds and meet no such
    exception never ends with the timeout error;
  \<^item> the body read is under no timer: whatever time the reads of the bodies take, the
    call makes the same requests and ends the same way.
\<close>

theorem timer_per_request:
  "(\<forall>v k uk. validateUrl E url = Inr v \<and> hops E (urlToString E v) 0 k = Some uk \<and>
       5000 \<le> fst (net E k uk) \<longrightarrow>
       snd (fetchPage E url) = Inl ''Failed to fetch URL (timeout)'' \<and>
       last (fst (fetchPage E url)) = (uk, 5000)) \<and>
   ((\<forall>v k uk. validateUrl E url = Inr v \<and> hops E (urlToString E v) 0 k = Some uk \<longrightarrow>
          fst (net E k uk) < 5000) \<longrightarrow>
       list_all (\<lambda>q. snd q < 5000) (fst (fetchPage E url)) \<and>
       snd (fetchPage E url) = snd (fetchPage (instantly E) url)) \<and>
   waited (fst (fetchPage E url)) \<le> 4 * 5000 \<and>
   (\<forall>v. validateUrl E url = Inr v \<longrightarrow>
       (snd (fetchPage E url) = Inl ''Failed to fetch URL (timeout)'') =
       (\<exists>k uk. hops E (urlToString E v) 0 k = Some uk \<and>
          (5000 \<le> fst (net E k uk) \<or> networkAbort E k uk))) \<and>
   (\<forall>v. validateUrl E url = Inr v \<and>
        (\<forall>k uk. hops E (urlToString E v) 0 k = Some uk \<longrightarrow>
           fst (net E k uk) < 5000 \<and> \<not> networkAbort E k uk) \<longrightarrow>
       snd (fetchPage E url) \<noteq> Inl ''Failed to fetch URL (timeout)'') \<and>
   (\<forall>ts. fetchPage (withReadTimes ts E) url = fetchPage E url)"
proof (intro conjI allI impI)
  fix v k uk
  assume h: "validateUrl E url = Inr v \<and> hops E (urlToString E v) 0 k = Some uk \<and>
       5000 \<le> fst (net E k uk)"
  then have stop: "fetchLoop E uk k = ([(uk, 5000)], Thrown abortError)"
    by (simp add: fetchLoop_timeout)
  from h have "validateUrl E url = Inr v" and "hops E (urlToString E v) 0 k = Some uk"
    by simp_all
  note run = fetchPage_hops [OF this stop]
  from run show "snd (fetchPage E url) = Inl ''Failed to fetch URL (timeout)''"
    by (metis attempt.simps(11) catch_abort snd_conv)
  from run show "last (fst (fetchPage E url)) = (uk, 5000)"
    by simp
next
  assume quick: "\<forall>v k uk. validateUrl E url = Inr v \<and> hops E (urlToString E v) 0 k = Some uk
      \<longrightarrow> fst (net E k uk) < 5000"
  from fetchPage_quick [OF quick]
  show "list_all (\<lambda>q. snd q < 5000) (fst (fetchPage E url))"
    and "snd (fetchPage E url) = snd (fetchPage (instantly E) url)"
    by simp_all
next
  show "waited (fst (fetchPage E url)) \<le> 4 * 5000"
    by (rule fetchPage_waited)
next
  fix v
  assume "validateUrl E url = Inr v"
  then show "(snd (fetchPage E url) = Inl ''Failed to fetch URL (timeout)'') =
       (\<exists>k uk. hops E (urlToString E v) 0 k = Some uk \<and>
          (5000 \<le> fst (net E k uk) \<or> networkAbort E k uk))"
    by (rule timeout_cause)
next
  fix v
  assume h: "validateUrl E url = Inr v \<and>
        (\<forall>k uk. hops E (urlToString E v) 0 k = Some uk \<longrightarrow>
           fst (net E k uk) < 5000 \<and> \<not> networkAbort E k uk)"
  then have v: "validateUrl E url = Inr v" by simp
  from h timeout_cause [OF v]
  show "snd (fetchPage E url) \<noteq> Inl ''Failed to fetch URL (timeout)''"
    by (auto simp add: not_le)
next
  fix ts
  show "fetchPage (withReadTimes ts E) url = fetchPage E url"
    by (rule fetchPage_withReadTimes)
qed


theorem timer_per_request_witness:
  "snd (fetchPage (demoEnv stallsAfterRedirect) ''http://shop.example/item'')
     = Inl ''Failed to fetch URL (timeout)'' \<and>
   snd (fetchPage (demoEnv slowRedirect) ''http://shop.example/item'')
     = snd (fetchPage (instantly (demoEnv slowRedirect)) ''http://shop.example/item'') \<and>
   list_all (\<lambda>q. snd q < 5000) (fst (fetchPage (demoEnv slowRedirect) ''http://shop.example/item'')) \<and>
   snd (fetchPage (demoEnv slowRedirect) ''http://shop.example/item'')
     \<noteq> Inl ''Failed to fetch URL (timeout)'' \<and>
   snd (fetchPage (demoEnv abortsEarly) ''http://shop.example/item'')
     = Inl ''Failed to fetch URL (timeout)'' \<and>
   bodyWait slowPage = 60000 \<and>
   fetchPage (demoEnv slowBody) ''http://shop.example/item''
     = fetchPage (demoEnv (\<lambda>n u. (20, Inr (htmlPage ''<title>late</title>''))))
         ''http://shop.example/item'' \<and>
   fetchPage (demoEnv slowBody) ''http://shop.example/item''
     = ([(''http://shop.example/item'', 20)],
        Inr (''<title>late</title>'', ''http://shop.example/item''))"
proof -
  let ?u = "''http://shop.example/item''"
  let ?A = "demoEnv stallsAfterRedirect"
  let ?B = "demoEnv slowRedirect"
  let ?C = "demoEnv abortsEarly"
  let ?D = "demoEnv (\<lambda>n u. (20, Inr (htmlPage ''<title>late</title>'')))"
  have vA: "validateUrl ?A ?u = Inr shopItem"
    by code_simp
  have vB: "validateUrl ?B ?u = Inr shopItem"
    by code_simp
  have vC: "validateUrl ?C ?u = Inr shopItem"
    by code_simp
  have hA: "hops ?A (urlToString ?A shopItem) 0 1 = Some ''http://shop.example/final''"
    by (simp add: follows_def demoEnv_def stallsAfterRedirect_def redirectTo_def
        redirectTarget_def MAX_REDIRECTS_def demoNewURLBase_def demoNewURL_def demoToString_def
        startsWith_def demoQuery_def shopItem_def)
  have nA: "5000 \<le> fst (net ?A 1 ''http://shop.example/final'')"
    by (simp add: demoEnv_def stallsAfterRedirect_def)
  have qB: "fst (net ?B n u) < 5000" for n u
    by (simp add: demoEnv_def slowRedirect_def)
  have rB: "\<not> networkAbort ?B n u" for n u
    by (simp add: networkAbort_def demoEnv_def slowRedirect_def redirectTo_def htmlPage_def
        redirectTarget_def MAX_REDIRECTS_def demoNewURLBase_def demoNewURL_def
        startsWith_def readPage_def ok_def MAX_SIZE_def)
  have hC: "hops ?C (urlToString ?C shopItem) 0 0 = Some ?u"
    by (simp add: demoEnv_def demoToString_def shopItem_def)
  have aC: "networkAbort ?C 0 ?u"
    by (simp add: networkAbort_def demoEnv_def abortsEarly_def)
  have tD: "withReadTimes (\<lambda>n u. [60000, 0]) ?D = demoEnv slowBody"
    by (simp add: withReadTimes_def demoEnv_def slowBody_def [abs_def] slowPage_def)
  from timer_per_request [of ?A ?u, THEN conjunct1, rule_format,
      of shopItem 1 "''http://shop.example/final''"] vA hA nA
  have a: "snd (fetchPage ?A ?u) = Inl ''Failed to fetch URL (timeout)''"
    by simp
  from timer_per_request [of ?B ?u, THEN conjunct2, THEN conjunct1] qB
  have b: "list_all (\<lambda>q. snd q < 5000) (fst (fetchPage ?B ?u)) \<and>
      snd (fetchPage ?B ?u) = snd (fetchPage (instantly ?B) ?u)"
    by simp
  from timer_per_request [of ?B ?u, THEN conjunct2, THEN conjunct2, THEN conjunct2,
      THEN conjunct2, THEN conjunct1, rule_format, of shopItem] vB qB rB
  have c: "snd (fetchPage ?B ?u) \<noteq> Inl ''Failed to fetch URL (timeout)''"
    by simp
  from timer_per_request [of ?C ?u, THEN conjunct2, THEN conjunct2, THEN conjunct2,
      THEN conjunct1, rule_format, of shopItem] vC hC aC
  have d: "snd (fetchPage ?C ?u) = Inl ''Failed to fetch URL (timeout)''"
    by blast
  have e: "bodyWait slowPage = 60000"
    by (simp add: bodyWait_def slowPage_def)
  from timer_per_request [of ?D ?u, THEN conjunct2, THEN conjunct2, THEN conjunct2,
      THEN conjunct2, THEN conjunct2, rule_format, of "\<lambda>n u. [60000, 0]"] tD
  have f: "fetchPage (demoEnv slowBody) ?u = fetchPage ?D ?u"
    by simp
  note g = slow_body_run
  from a b c d e f g show ?thesis by simp
qed

text \<open>
  C5 as stated fails: two requests of 4000 ms each, 8000 ms of waiting in all, and the
  call succeeds.
\<close>

theorem overall_timeout_counterexample:
  "fetchPage (demoEnv slowRedirect) ''http://shop.example/item'' =
     ([(''http://shop.example/item'', 4000), (''http://shop.example/final'', 4000)],
      Inr (''<title>final</title>'', ''http://shop.example/item'')) \<and>
   waited (fst (fetchPage (demoEnv slowRedirect) ''http://shop.example/item'')) = 8000"
proof -
  let ?E = "demoEnv slowRedirect"
  let ?u = "''http://shop.example/item''"
  have v: "validateUrl ?E ?u = Inr shopItem"
    by code_simp
  have s: "urlToString ?E shopItem = ?u"
    by code_simp
  have run: "fetchLoop ?E ?u 0 =
     ([(?u, 4000), (''http://shop.example/final'', 4000)], Html ''<title>final</title>'')"
    by (simp add: fetchLoop.simps demoEnv_def slowRedirect_def redirectTo_def htmlPage_def
        redirectTarget_def MAX_REDIRECTS_def demoNewURLBase_def demoNewURL_def demoToString_def
        startsWith_def demoQuery_def readPage_def ok_def MAX_SIZE_def)
  show ?thesis
    by (simp add: fetchPage_valid [OF v] s run waited_def)
qed

section \<open>Error messages\<close>

lemma catch_other:
  "exn_name e \<noteq> ''AbortError'' \<Longrightarrow> \<not> str_includes (exn_message e) ''Private IP'' \<Longrightarrow>
     \<not> str_includes (exn_message e) ''protocols'' \<Longrightarrow>
     catchMessage e = ''Failed to fetch URL: Invalid URL or network error''"
  by (simp add: catchMessage_def)

lemma catch_scheme:
  "catchMessage (Exn ''Error'' ''Only HTTP and HTTPS protocols are allowed'')
     = ''Only HTTP and HTTPS protocols are allowed''"
  by code_simp

lemma catch_private:
  "catchMessage (Exn ''Error'' ''Private IP addresses are not allowed'')
     = ''Private IP addresses are not allowed''"
  by code_simp

lemma fetchPage_ends:
  "validateUrl E url = Inr v \<Longrightarrow> hops E (urlToString E v) 0 k = Some uk \<Longrightarrow>
     fetchLoop E uk k = ([(uk, l)], a) \<Longrightarrow>
     snd (fetchPage E url) =
        (case a of
           Respond400 msg \<Rightarrow> Inl msg
         | Thrown e \<Rightarrow> Inl (catchMessage e)
         | Html html \<Rightarrow> Inr (html, urlToString E v)) \<and>
     length (fst (fetchPage E url)) = Suc k"
  using fetchPage_hops [of E url v k uk l a] by (metis snd_conv)

text \<open>
  C9 (as amended). A timeout, a connection error, a size overflow, a wrong content
  type, a disallowed scheme and a private destination each end the call with a message
  of their own, after the failing request and without another one (nothing is
  retried): \<^verbatim>\<open>Failed to fetch URL (timeout)\<close>;
  \<^verbatim>\<open>Failed to fetch URL: Invalid URL or network error\<close> (for an error that is not an
  abort and whose message mentions neither \<^verbatim>\<open>Private IP\<close> nor \<^verbatim>\<open>protocols\<close>);
  \<^verbatim>\<open>Content size exceeds 512KB limit\<close>; \<^verbatim>\<open>URL must return HTML content\<close>;
  \<^verbatim>\<open>Only HTTP and HTTPS protocols are allowed\<close>; \<^verbatim>\<open>Private IP addresses are not allowed\<close>.
  Exceeding the redirect cap ends the call with \<^verbatim>\<open>Failed to fetch URL\<close>, the very
  message of an answer that is neither a redirect nor 2xx; the seven messages are
  pairwise distinct.
\<close>

theorem error_messages:
  "(\<forall>v k uk. validateUrl E url = Inr v \<and> hops E (urlToString E v) 0 k = Some uk \<and>
       5000 \<le> fst (net E k uk) \<longrightarrow>
       snd (fetchPage E url) = Inl ''Failed to fetch URL (timeout)'' \<and>
       length (fst (fetchPage E url)) = Suc k) \<and>
   (\<forall>v k uk l e. validateUrl E url = Inr v \<and> hops E (urlToString E v) 0 k = Some uk \<and>
       net E k uk = (l, Inl e) \<and> l < 5000 \<and> exn_name e \<noteq> ''AbortError'' \<and>
       \<not> str_includes (exn_message e) ''Private IP'' \<and>
       \<not> str_includes (exn_message e) ''protocols'' \<longrightarrow>
       snd (fetchPage E url) = Inl ''Failed to fetch URL: Invalid URL or network error'' \<and>
       length (fst (fetchPage E url)) = Suc k) \<and>
   (\<forall>v k uk l r. validateUrl E url = Inr v \<and> hops E (urlToString E v) 0 k = Some uk \<and>
       net E k uk = (l, Inr r) \<and> l < 5000 \<and> redirectTarget r = None \<longrightarrow>
       length (fst (fetchPage E url)) = Suc k \<and>
       (\<not> ok r \<longrightarrow> snd (fetchPage E url) = Inl ''Failed to fetch URL'') \<and>
       (ok r \<and> \<not> str_includes (orEmpty (contentType r)) ''text/html'' \<longrightarrow>
          snd (fetchPage E url) = Inl ''URL must return HTML content'') \<and>
       (\<forall>evs. ok r \<and> str_includes (orEmpty (contentType r)) ''text/html'' \<and>
          body r = Some evs \<and> readBody 0 [] evs = TooLarge \<longrightarrow>
          snd (fetchPage E url) = Inl ''Content size exceeds 512KB limit'')) \<and>
   (\<forall>v u3 l r loc. validateUrl E url = Inr v \<and> hops E (urlToString E v) 0 3 = Some u3 \<and>
       net E 3 u3 = (l, Inr r) \<and> l < 5000 \<and> redirectTarget r = Some loc \<longrightarrow>
       snd (fetchPage E url) = Inl ''Failed to fetch URL'' \<and>
       length (fst (fetchPage E url)) = 4) \<and>
   (\<forall>u0. newURL E url = Inr u0 \<and> protocol u0 \<noteq> ''http:'' \<and> protocol u0 \<noteq> ''https:'' \<longrightarrow>
       fetchPage E url = ([], Inl ''Only HTTP and HTTPS protocols are allowed'')) \<and>
   (\<forall>u0. newURL E url = Inr u0 \<and> (protocol u0 = ''http:'' \<or> protocol u0 = ''https:'') \<and>
       isPrivateIP (isIPv6 E) (hostname u0) \<longrightarrow>
       fetchPage E url = ([], Inl ''Private IP addresses are not allowed'')) \<and>
   distinct [''Failed to fetch URL (timeout)'',
             ''Failed to fetch URL: Invalid URL or network error'',
             ''Content size exceeds 512KB limit'', ''URL must return HTML content'',
             ''Only HTTP and HTTPS protocols are allowed'',
             ''Private IP addresses are not allowed'', ''Failed to fetch URL'']"
proof (intro conjI)
  show "\<forall>v k uk. validateUrl E url = Inr v \<and> hops E (urlToString E v) 0 k = Some uk \<and>
       5000 \<le> fst (net E k uk) \<longrightarrow>
       snd (fetchPage E url) = Inl ''Failed to fetch URL (timeout)'' \<and>
       length (fst (fetchPage E url)) = Suc k"
  proof (intro allI impI)
    fix v k uk
    assume h: "validateUrl E url = Inr v \<and> hops E (urlToString E v) 0 k = Some uk \<and>
       5000 \<le> fst (net E k uk)"
    then have stop: "fetchLoop E uk k = ([(uk, 5000)], Thrown abortError)"
      by (simp add: fetchLoop_timeout)
    from h have "validateUrl E url = Inr v" and "hops E (urlToString E v) 0 k = Some uk"
      by simp_all
    from fetchPage_ends [OF this stop]
    show "snd (fetchPage E url) = Inl ''Failed to fetch URL (timeout)'' \<and>
       length (fst (fetchPage E url)) = Suc k"
      by (simp add: catch_abort)
  qed
next
  show "\<forall>v k uk l e. validateUrl E url = Inr v \<and> hops E (urlToString E v) 0 k = Some uk \<and>
       net E k uk = (l, Inl e) \<and> l < 5000 \<and> exn_name e \<noteq> ''AbortError'' \<and>
       \<not> str_includes (exn_message e) ''Private IP'' \<and>
       \<not> str_includes (exn_message e) ''protocols'' \<longrightarrow>
       snd (fetchPage E url) = Inl ''Failed to fetch URL: Invalid URL or network error'' \<and>
       length (fst (fetchPage E url)) = Suc k"
  proof (intro allI impI)
    fix v k uk l e
    assume h: "validateUrl E url = Inr v \<and> hops E (urlToString E v) 0 k = Some uk \<and>
       net E k uk = (l, Inl e) \<and> l < 5000 \<and> exn_name e \<noteq> ''AbortError'' \<and>
       \<not> str_includes (exn_message e) ''Private IP'' \<and>
       \<not> str_includes (exn_message e) ''protocols''"
    then have stop: "fetchLoop E uk k = ([(uk, l)], Thrown e)"
      by (simp add: fetchLoop_rejected)
    from h have msg: "catchMessage e = ''Failed to fetch URL: Invalid URL or network error''"
      by (simp add: catch_other)
    from h have "validateUrl E url = Inr v" and "hops E (urlToString E v) 0 k = Some uk"
      by simp_all
    from fetchPage_ends [OF this stop] msg
    show "snd (fetchPage E url) = Inl ''Failed to fetch URL: Invalid URL or network error'' \<and>
       length (fst (fetchPage E url)) = Suc k"
      by simp
  qed
next
  show "\<forall>v k uk l r. validateUrl E url = Inr v \<and> hops E (urlToString E v) 0 k = Some uk \<and>
       net E k uk = (l, Inr r) \<and> l < 5000 \<and> redirectTarget r = None \<longrightarrow>
       length (fst (fetchPage E url)) = Suc k \<and>
       (\<not> ok r \<longrightarrow> snd (fetchPage E url) = Inl ''Failed to fetch URL'') \<and>
       (ok r \<and> \<not> str_includes (orEmpty (contentType r)) ''text/html'' \<longrightarrow>
          snd (fetchPage E url) = Inl ''URL must return HTML content'') \<and>
       (\<forall>evs. ok r \<and> str_includes (orEmpty (contentType r)) ''text/html'' \<and>
          body r = Some evs \<and> readBody 0 [] evs = TooLarge \<longrightarrow>
          snd (fetchPage E url) = Inl ''Content size exceeds 512KB limit'')"
  proof (intro allI impI)
    fix v k uk l r
    assume h: "validateUrl E url = Inr v \<and> hops E (urlToString E v) 0 k = Some uk \<and>
       net E k uk = (l, Inr r) \<and> l < 5000 \<and> redirectTarget r = None"
    then have stop: "fetchLoop E uk k = ([(uk, l)], readPage r)"
      by (simp add: fetchLoop_page)
    from h have "validateUrl E url = Inr v" and "hops E (urlToString E v) 0 k = Some uk"
      by simp_all
    note run = fetchPage_ends [OF this stop]
    from run show "length (fst (fetchPage E url)) = Suc k \<and>
       (\<not> ok r \<longrightarrow> snd (fetchPage E url) = Inl ''Failed to fetch URL'') \<and>
       (ok r \<and> \<not> str_includes (orEmpty (contentType r)) ''text/html'' \<longrightarrow>
          snd (fetchPage E url) = Inl ''URL must return HTML content'') \<and>
       (\<forall>evs. ok r \<and> str_includes (orEmpty (contentType r)) ''text/html'' \<and>
          body r = Some evs \<and> readBody 0 [] evs = TooLarge \<longrightarrow>
          snd (fetchPage E url) = Inl ''Content size exceeds 512KB limit'')"
      by (simp add: readPage_def)
  qed
next
  show "\<forall>v u3 l r loc. validateUrl E url = Inr v \<and> hops E (urlToString E v) 0 3 = Some u3 \<and>
       net E 3 u3 = (l, Inr r) \<and> l < 5000 \<and> redirectTarget r = Some loc \<longrightarrow>
       snd (fetchPage E url) = Inl ''Failed to fetch URL'' \<and>
       length (fst (fetchPage E url)) = 4"
  proof (intro allI impI)
    fix v u3 l r loc
    assume h: "validateUrl E url = Inr v \<and> hops E (urlToString E v) 0 3 = Some u3 \<and>
       net E 3 u3 = (l, Inr r) \<and> l < 5000 \<and> redirectTarget r = Some loc"
    then have stop: "fetchLoop E u3 3 = ([(u3, l)], Respond400 ''Failed to fetch URL'')"
      by (intro fetchLoop_cap [of E 3 u3 l r loc]) (simp_all add: MAX_REDIRECTS_def)
    from h have "validateUrl E url = Inr v" and "hops E (urlToString E v) 0 3 = Some u3"
      by simp_all
    from fetchPage_ends [OF this stop]
    show "snd (fetchPage E url) = Inl ''Failed to fetch URL'' \<and>
       length (fst (fetchPage E url)) = 4"
      by simp
  qed
next
  show "\<forall>u0. newURL E url = Inr u0 \<and> protocol u0 \<noteq> ''http:'' \<and> protocol u0 \<noteq> ''https:'' \<longrightarrow>
       fetchPage E url = ([], Inl ''Only HTTP and HTTPS protocols are allowed'')"
  proof (intro allI impI)
    fix u0
    assume "newURL E url = Inr u0 \<and> protocol u0 \<noteq> ''http:'' \<and> protocol u0 \<noteq> ''https:''"
    then have "validateUrl E url = Inl (Exn ''Error'' ''Only HTTP and HTTPS protocols are allowed'')"
      by (simp add: validateUrl_def)
    then show "fetchPage E url = ([], Inl ''Only HTTP and HTTPS protocols are allowed'')"
      by (simp add: fetchPage_invalid catch_scheme)
  qed
next
  show "\<forall>u0. newURL E url = Inr u0 \<and> (protocol u0 = ''http:'' \<or> protocol u0 = ''https:'') \<and>
       isPrivateIP (isIPv6 E) (hostname u0) \<longrightarrow>
       fetchPage E url = ([], Inl ''Private IP addresses are not allowed'')"
  proof (intro allI impI)
    fix u0
    assume "newURL E url = Inr u0 \<and> (protocol u0 = ''http:'' \<or> protocol u0 = ''https:'') \<and>
       isPrivateIP (isIPv6 E) (hostname u0)"
    then have "validateUrl E url = Inl (Exn ''Error'' ''Private IP addresses are not allowed'')"
      by (auto simp add: validateUrl_def)
    then show "fetchPage E url = ([], Inl ''Private IP addresses are not allowed'')"
      by (simp add: fetchPage_invalid catch_private)
  qed
next
  show "distinct [''Failed to fetch URL (timeout)'',
             ''Failed to fetch URL: Invalid URL or network error'',
             ''Content size exceeds 512KB limit'', ''URL must return HTML content'',
             ''Only HTTP and HTTPS protocols are allowed'',
             ''Private IP addresses are not allowed'', ''Failed to fetch URL'']"
    by simp
qed


theorem error_messages_witness:
  "snd (fetchPage (demoEnv stallsAfterRedirect) ''http://shop.example/item'')
     = Inl ''Failed to fetch URL (timeout)'' \<and>
   snd (fetchPage (demoEnv unreachable) ''http://shop.example/item'')
     = Inl ''Failed to fetch URL: Invalid URL or network error'' \<and>
   snd (fetchPage (demoEnv servesJson) ''http://shop.example/item'')
     = Inl ''URL must return HTML content'' \<and>
   snd (fetchPage (demoEnv servesHuge) ''http://shop.example/item'')
     = Inl ''Content size exceeds 512KB limit'' \<and>
   snd (fetchPage (demoEnv serverError) ''http://shop.example/item'')
     = Inl ''Failed to fetch URL'' \<and>
   snd (fetchPage (demoEnv redirectsForever) ''http://shop.example/item'')
     = Inl ''Failed to fetch URL'' \<and>
   fetchPage (demoEnv unreachable) ''ftp://shop.example/item''
     = ([], Inl ''Only HTTP and HTTPS protocols are allowed'') \<and>
   fetchPage (demoEnv unreachable) ''http://127.0.0.1/admin''
     = ([], Inl ''Private IP addresses are not allowed'')"
proof -
  let ?u = "''http://shop.example/item''"
  have v: "validateUrl (demoEnv network) ?u = Inr shopItem" for network
    by code_simp
  have s: "urlToString (demoEnv network) shopItem = ?u" for network
    by code_simp
  have h0: "hops (demoEnv network) (urlToString (demoEnv network) shopItem) 0 0 = Some ?u"
    for network
    by (simp add: s)
  \<comment> \<open>the timeout, at the second request\<close>
  have h1: "hops (demoEnv stallsAfterRedirect) (urlToString (demoEnv stallsAfterRedirect) shopItem)
      0 1 = Some ''http://shop.example/final''"
    by (simp add: follows_def demoEnv_def stallsAfterRedirect_def redirectTo_def
        redirectTarget_def MAX_REDIRECTS_def demoNewURLBase_def demoNewURL_def demoToString_def
        startsWith_def demoQuery_def shopItem_def)
  have n1: "5000 \<le> fst (net (demoEnv stallsAfterRedirect) 1 ''http://shop.example/final'')"
    by (simp add: demoEnv_def stallsAfterRedirect_def)
  from error_messages [of "demoEnv stallsAfterRedirect" ?u, THEN conjunct1, rule_format,
      of shopItem 1 "''http://shop.example/final''"] v h1 n1
  have a: "snd (fetchPage (demoEnv stallsAfterRedirect) ?u) = Inl ''Failed to fetch URL (timeout)''"
    by simp
  \<comment> \<open>the connection error\<close>
  have n2: "net (demoEnv unreachable) 0 ?u = (20, Inl (Exn ''TypeError'' ''fetch failed''))"
    by (simp add: demoEnv_def unreachable_def)
  have e2: "exn_name (Exn ''TypeError'' ''fetch failed'') \<noteq> ''AbortError'' \<and>
       \<not> str_includes (exn_message (Exn ''TypeError'' ''fetch failed'')) ''Private IP'' \<and>
       \<not> str_includes (exn_message (Exn ''TypeError'' ''fetch failed'')) ''protocols''"
    by code_simp
  from error_messages [of "demoEnv unreachable" ?u, THEN conjunct2, THEN conjunct1, rule_format,
      of shopItem 0 ?u 20 "Exn ''TypeError'' ''fetch failed''"] v h0 n2 e2
  have b: "snd (fetchPage (demoEnv unreachable) ?u)
      = Inl ''Failed to fetch URL: Invalid URL or network error''"
    by simp
  \<comment> \<open>the answers that are not a page\<close>
  note page = error_messages [THEN conjunct2, THEN conjunct2, THEN conjunct1, rule_format]
  let ?json = "\<lparr>status = 200, location = None, contentType = Some ''application/json'',
      body = Some [Chunk ''{}''], readTimes = []\<rparr>"
  have n3: "net (demoEnv servesJson) 0 ?u = (20, Inr ?json)"
    by (simp add: demoEnv_def servesJson_def)
  have r3: "redirectTarget ?json = None" "ok ?json"
      "\<not> str_includes (orEmpty (contentType ?json)) ''text/html''"
    by (simp_all add: redirectTarget_def ok_def startsWith_def)
  from page [of "demoEnv servesJson" ?u shopItem 0 ?u 20 ?json] v h0 n3 r3
  have c: "snd (fetchPage (demoEnv servesJson) ?u) = Inl ''URL must return HTML content''"
    by simp
  let ?huge = "\<lparr>status = 200, location = None, contentType = Some ''text/html'',
      body = Some [Chunk (replicate 524288 CHR ''x''), Chunk ''y''], readTimes = []\<rparr>"
  have n4: "net (demoEnv servesHuge) 0 ?u = (20, Inr ?huge)"
    by (simp add: demoEnv_def servesHuge_def)
  have r4: "redirectTarget ?huge = None" "ok ?huge"
      "str_includes (orEmpty (contentType ?huge)) ''text/html''"
    by (simp_all add: redirectTarget_def ok_def startsWith_def)
  have b4: "readBody 0 [] [Chunk (replicate 524288 CHR ''x''), Chunk ''y''] = TooLarge"
    by (simp add: MAX_SIZE_def)
  from page [of "demoEnv servesHuge" ?u shopItem 0 ?u 20 ?huge] v h0 n4 r4 b4
  have d: "snd (fetchPage (demoEnv servesHuge) ?u) = Inl ''Content size exceeds 512KB limit''"
    by simp
  let ?err = "\<lparr>status = 500, location = None, contentType = Some ''text/html'',
      body = Some [], readTimes = []\<rparr>"
  have n5: "net (demoEnv serverError) 0 ?u = (20, Inr ?err)"
    by (simp add: demoEnv_def serverError_def)
  have r5: "redirectTarget ?err = None" "\<not> ok ?err"
    by (simp_all add: redirectTarget_def ok_def)
  from page [of "demoEnv serverError" ?u shopItem 0 ?u 20 ?err] v h0 n5 r5
  have e: "snd (fetchPage (demoEnv serverError) ?u) = Inl ''Failed to fetch URL''"
    by simp
  \<comment> \<open>the redirect cap\<close>
  have h6: "hops (demoEnv redirectsForever) (urlToString (demoEnv redirectsForever) shopItem) 0 3
      = Some ''http://shop.example/again''"
    by code_simp
  have n6: "net (demoEnv redirectsForever) 3 ''http://shop.example/again''
      = (20, Inr (redirectTo ''http://shop.example/again''))"
    by (simp add: demoEnv_def redirectsForever_def)
  have r6: "redirectTarget (redirectTo ''http://shop.example/again'')
      = Some ''http://shop.example/again''"
    by code_simp
  from error_messages [of "demoEnv redirectsForever" ?u, THEN conjunct2, THEN conjunct2,
      THEN conjunct2, THEN conjunct1, rule_format,
      of shopItem "''http://shop.example/again''" 20 "redirectTo ''http://shop.example/again''"
         "''http://shop.example/again''"] v h6 n6 r6
  have f: "snd (fetchPage (demoEnv redirectsForever) ?u) = Inl ''Failed to fetch URL''"
    by simp
  \<comment> \<open>the validator\<close>
  let ?ftp = "shopItem\<lparr>protocol := ''ftp:''\<rparr>"
  have n7: "newURL (demoEnv unreachable) ''ftp://shop.example/item'' = Inr ?ftp"
      "protocol ?ftp \<noteq> ''http:''" "protocol ?ftp \<noteq> ''https:''"
    by code_simp+
  from error_messages [of "demoEnv unreachable" "''ftp://shop.example/item''", THEN conjunct2,
      THEN conjunct2, THEN conjunct2, THEN conjunct2, THEN conjunct1, rule_format, of ?ftp] n7
  have g: "fetchPage (demoEnv unreachable) ''ftp://shop.example/item''
      = ([], Inl ''Only HTTP and HTTPS protocols are allowed'')"
    by simp
  let ?lo = "shopItem\<lparr>hostname := ''127.0.0.1'', pathname := ''/admin''\<rparr>"
  have n8: "newURL (demoEnv unreachable) ''http://127.0.0.1/admin'' = Inr ?lo"
      "protocol ?lo = ''http:''" "isPrivateIP (isIPv6 (demoEnv unreachable)) (hostname ?lo)"
    by code_simp+
  from error_messages [of "demoEnv unreachable" "''http://127.0.0.1/admin''", THEN conjunct2,
      THEN conjunct2, THEN conjunct2, THEN conjunct2, THEN conjunct2, THEN conjunct1,
      rule_format, of ?lo] n8
  have i: "fetchPage (demoEnv unreachable) ''http://127.0.0.1/admin''
      = ([], Inl ''Private IP addresses are not allowed'')"
    by simp
  from a b c d e f g i show ?thesis by simp
qed

text \<open>
  C9 as stated fails: a server that redirects for ever and a server that answers 500
  end the call with the same message, which does not mention redirects.
\<close>

theorem redirect_cap_message_counterexample:
  "fetchPage (demoEnv redirectsForever) ''http://shop.example/item'' =
     ([(''http://shop.example/item'', 20), (''http://shop.example/again'', 20),
       (''http://shop.example/again'', 20), (''http://shop.example/again'', 20)],
      Inl ''Failed to fetch URL'') \<and>
   fetchPage (demoEnv serverError) ''http://shop.example/item'' =
     ([(''http://shop.example/item'', 20)], Inl ''Failed to fetch URL'')"
proof -
  let ?u = "''http://shop.example/item''"
  have v: "validateUrl (demoEnv network) ?u = Inr shopItem" for network
    by code_simp
  have s: "urlToString (demoEnv network) shopItem = ?u" for network
    by code_simp
  have a: "fetchLoop (demoEnv redirectsForever) ?u 0 =
     ([(''http://shop.example/item'', 20), (''http://shop.example/again'', 20),
       (''http://shop.example/again'', 20), (''http://shop.example/again'', 20)],
      Respond400 ''Failed to fetch URL'')"
    by (simp add: fetchLoop.simps demoEnv_def redirectsForever_def redirectTo_def
        redirectTarget_def MAX_REDIRECTS_def demoNewURLBase_def demoNewURL_def demoToString_def
        startsWith_def demoQuery_def)
  have b: "fetchLoop (demoEnv serverError) ?u 0 =
     ([(''http://shop.example/item'', 20)], Respond400 ''Failed to fetch URL'')"
    by (simp add: fetchLoop.simps demoEnv_def serverError_def redirectTarget_def readPage_def ok_def)
  show ?thesis
    by (simp add: fetchPage_valid [OF v] s a b)
qed

end
